theory Spec2Isabelle
  imports Main "HOL-Library.AList" "HOL-Library.FSet"
begin

section \<open>Blog Management System: the in-memory stores and their endpoints\<close>

text \<open>
  The development follows \<^verbatim>\<open>src/main.py\<close>. The four module-level dictionaries and the
  two counters form the state; every endpoint is a function from the state (and its
  request) to a result and the state it leaves behind. An exception is a value: an
  endpoint returns \<open>Inl\<close> of the exception or \<open>Inr\<close> of its response, always together with
  the state at the moment of the return or raise, so that a raise after a mutation would
  be visible.
\<close>

subsection \<open>Values\<close>

text \<open>
  A \<^verbatim>\<open>datetime\<close> is a count of microseconds and a \<^verbatim>\<open>timedelta\<close> a difference
  of two; only their order, equality and sum are used.
\<close>

type_synonym datetime = int
type_synonym timedelta = int

definition timedelta_minutes :: "int \<Rightarrow> timedelta" where
  "timedelta_minutes m = m * 60000000"

text \<open>
  \<^verbatim>\<open>HTTPException(status_code, detail)\<close>, which the server answers with that status,
  and the exceptions that no handler of the source catches, which the server answers
  with status 500: the \<^verbatim>\<open>KeyError\<close> of a subscript or \<^verbatim>\<open>del\<close> on a missing key,
  the \<^verbatim>\<open>TypeError\<close> of a membership test with an unhashable value, the two
  exceptions with which \<^verbatim>\<open>passlib\<close> refuses a password
  (\<^verbatim>\<open>PasswordValueError\<close>, \<^verbatim>\<open>PasswordSizeError\<close>), and any other exception
  of a library, by the name of its class.
\<close>

datatype exception =
    HTTPException (status_code: int) (detail: string)
  | KeyError
  | TypeError
  | PasswordValueError
  | PasswordSizeError
  | OtherError string

definition HTTP_400_BAD_REQUEST :: int where "HTTP_400_BAD_REQUEST = 400"
definition HTTP_401_UNAUTHORIZED :: int where "HTTP_401_UNAUTHORIZED = 401"
definition HTTP_403_FORBIDDEN :: int where "HTTP_403_FORBIDDEN = 403"
definition HTTP_404_NOT_FOUND :: int where "HTTP_404_NOT_FOUND = 404"

definition SECRET_KEY :: string where
  "SECRET_KEY = ''your-secret-key-change-in-production''"

definition ALGORITHM :: string where
  "ALGORITHM = ''HS256''"

definition ACCESS_TOKEN_EXPIRE_MINUTES :: int where
  "ACCESS_TOKEN_EXPIRE_MINUTES = 30"

subsection \<open>Dictionaries\<close>

text \<open>
  A Python \<^verbatim>\<open>dict\<close> keeps its keys in insertion order, and \<^verbatim>\<open>get_all_posts\<close>
  iterates over one, so a dictionary is an association list in insertion order.
  \<^verbatim>\<open>d[k] = v\<close> is \<^const>\<open>AList.update\<close> (the value is replaced in place when the key
  is present, and the pair is appended at the end otherwise), \<^verbatim>\<open>del d[k]\<close> is
  \<^const>\<open>AList.delete\<close>, a subscript \<^verbatim>\<open>d[k]\<close> is a case distinction on
  \<^const>\<open>map_of\<close>, with \<^const>\<open>KeyError\<close> for the missing key.
\<close>

type_synonym ('k, 'v) dict = "('k \<times> 'v) list"

definition dict_in :: "'k \<Rightarrow> ('k, 'v) dict \<Rightarrow> bool" where
  "dict_in k d = (map_of d k \<noteq> None)"

definition dict_get :: "('k, 'v) dict \<Rightarrow> 'k \<Rightarrow> 'v \<Rightarrow> 'v" where
  "dict_get d k dflt = (case map_of d k of None \<Rightarrow> dflt | Some v \<Rightarrow> v)"

definition keys :: "('k, 'v) dict \<Rightarrow> 'k list" where
  "keys d = map fst d"

subsection \<open>The pydantic models and the stored records\<close>

record User =
  u_username :: string
  u_email :: string
  u_password :: string

record UserLogin =
  l_username :: string
  l_password :: string

record UserResponse =
  r_username :: string
  r_email :: string

record Token =
  access_token :: string
  token_type :: string

record BlogPost =
  b_title :: string
  b_content :: string
  b_author :: "string option"

record BlogPostUpdate =
  up_title :: "string option"
  up_content :: "string option"

record Comment =
  cm_content :: string

record LikeResponse =
  message :: string
  lr_likes_count :: int

text \<open>The value stored under a username in \<^verbatim>\<open>users_db\<close>.\<close>

record user_data =
  username :: string
  email :: string
  hashed_password :: string

text \<open>
  The value stored under a post id in \<^verbatim>\<open>posts_db\<close>. A \<^verbatim>\<open>BlogPostResponse\<close> is
  built as \<^verbatim>\<open>BlogPostResponse(**post_data, likes_count=..., comments_count=...)\<close>: it
  is the stored record extended by the two counts.
\<close>

record post_data =
  p_id :: int
  title :: string
  content :: string
  author :: string
  created_at :: datetime
  updated_at :: datetime

record BlogPostResponse = post_data +
  likes_count :: int
  comments_count :: int

text \<open>
  An element of a post's list in \<^verbatim>\<open>comments_db\<close>; \<^verbatim>\<open>CommentResponse(**comment_data)\<close>
  has the same five fields.
\<close>

record comment_data =
  c_id :: int
  c_content :: string
  c_author :: string
  c_post_id :: int
  c_created_at :: datetime

type_synonym CommentResponse = comment_data

record HTTPAuthorizationCredentials =
  credentials :: string

subsection \<open>The libraries and the clock\<close>

text \<open>
  A value of a JWT payload, as far as \<^verbatim>\<open>decode_access_token\<close> and
  \<^verbatim>\<open>get_current_user\<close> can tell values apart: a string; a number (or another
  hashable value that is not a string); JSON's null (Python's \<^verbatim>\<open>None\<close>); and a
  JSON array or object, which decode to a \<^verbatim>\<open>list\<close> and a \<^verbatim>\<open>dict\<close>, both
  unhashable whatever they hold.
\<close>

datatype jwt_value = JStr string | JNum int | JNull | JArray | JObject

type_synonym payload = "(string, jwt_value) dict"

text \<open>
  \<^verbatim>\<open>passlib\<close>, \<^verbatim>\<open>jwt\<close> and the clock are not part of the repository. Every
  endpoint takes them as a parameter, one record for each request: \<open>pwd_hash\<close> is
  \<^verbatim>\<open>pwd_context.hash\<close> (with the salt it draws for this call) and \<open>pwd_verify\<close> is
  \<^verbatim>\<open>pwd_context.verify\<close>, each of which returns (\<open>Inr\<close>) or raises (\<open>Inl\<close>);
  \<open>jwt_encode\<close> is \<^verbatim>\<open>jwt.encode(payload, key, algorithm)\<close>,
  \<open>jwt_decode\<close> is \<^verbatim>\<open>jwt.decode(token, key, algorithms)\<close> with \<open>None\<close> for a raised
  \<^verbatim>\<open>PyJWTError\<close> (bad signature, expired token, a subject the library refuses), and
  \<open>utcnow\<close> is what \<^verbatim>\<open>datetime.utcnow()\<close> returns during the request. Nothing is
  assumed about them.
\<close>

record env =
  pwd_hash :: "string \<Rightarrow> exception + string"
  pwd_verify :: "string \<Rightarrow> string \<Rightarrow> exception + bool"
  jwt_encode :: "payload \<Rightarrow> string \<Rightarrow> string \<Rightarrow> string"
  jwt_decode :: "string \<Rightarrow> string \<Rightarrow> string list \<Rightarrow> payload option"
  utcnow :: datetime

subsection \<open>The state\<close>

record state =
  users_db :: "(string, user_data) dict"
  posts_db :: "(int, post_data) dict"
  likes_db :: "(int, string fset) dict"
  comments_db :: "(int, comment_data list) dict"
  post_counter :: int
  comment_counter :: int

definition init_state :: state where
  "init_state = \<lparr>users_db = [], posts_db = [], likes_db = [], comments_db = [],
     post_counter = 0, comment_counter = 0\<rparr>"

subsection \<open>Utility functions\<close>

definition hash_password :: "env \<Rightarrow> string \<Rightarrow> exception + string" where
  "hash_password e password = pwd_hash e password"

definition verify_password :: "env \<Rightarrow> string \<Rightarrow> string \<Rightarrow> exception + bool" where
  "verify_password e plain_password hashed = pwd_verify e plain_password hashed"

text \<open>
  \<^verbatim>\<open>if expires_delta:\<close> is false for \<^verbatim>\<open>None\<close> and for the zero
  \<^verbatim>\<open>timedelta\<close>.
\<close>

definition create_access_token :: "env \<Rightarrow> payload \<Rightarrow> timedelta option \<Rightarrow> string" where
  "create_access_token e data expires_delta =
     (let to_encode = data;
          expire = (case expires_delta of
                      None \<Rightarrow> utcnow e + timedelta_minutes 15
                    | Some d \<Rightarrow> if d \<noteq> 0 then utcnow e + d
                               else utcnow e + timedelta_minutes 15);
          to_encode = AList.update ''exp'' (JNum expire) to_encode
      in jwt_encode e to_encode SECRET_KEY ALGORITHM)"

text \<open>
  \<^verbatim>\<open>payload.get("sub")\<close> is \<^verbatim>\<open>None\<close> when the key is missing and when its value
  is null. The \<^verbatim>\<open>HTTPException\<close> raised inside the \<^verbatim>\<open>try\<close> is not a
  \<^verbatim>\<open>PyJWTError\<close> and passes through the handler.
\<close>

definition decode_access_token :: "env \<Rightarrow> string \<Rightarrow> exception + jwt_value" where
  "decode_access_token e token =
     (case jwt_decode e token SECRET_KEY [ALGORITHM] of
        None \<Rightarrow> Inl (HTTPException HTTP_401_UNAUTHORIZED ''Could not validate credentials'')
      | Some payload \<Rightarrow>
          (case dict_get payload ''sub'' JNull of
             JNull \<Rightarrow> Inl (HTTPException HTTP_401_UNAUTHORIZED ''Could not validate credentials'')
           | sub \<Rightarrow> Inr sub))"

text \<open>
  \<^verbatim>\<open>username not in users_db\<close> hashes the subject. The keys of \<^verbatim>\<open>users_db\<close> are
  strings, so a hashable subject that is not a string is never among them; an unhashable
  one (a list or a dict) makes the test itself raise \<^verbatim>\<open>TypeError\<close>, which nothing
  catches.
\<close>

definition get_current_user :: "env \<Rightarrow> state \<Rightarrow> HTTPAuthorizationCredentials \<Rightarrow> exception + string" where
  "get_current_user e s creds =
     (let token = credentials creds in
      case decode_access_token e token of
        Inl ex \<Rightarrow> Inl ex
      | Inr (JStr uname) \<Rightarrow>
          if \<not> dict_in uname (users_db s)
          then Inl (HTTPException HTTP_401_UNAUTHORIZED ''User not found'')
          else Inr uname
      | Inr JArray \<Rightarrow> Inl TypeError
      | Inr JObject \<Rightarrow> Inl TypeError
      | Inr _ \<Rightarrow> Inl (HTTPException HTTP_401_UNAUTHORIZED ''User not found''))"

subsection \<open>Authentication endpoints\<close>

text \<open>
  Neither endpoint catches what \<^verbatim>\<open>pwd_context\<close> raises: the exception leaves the
  endpoint at the call, in \<^verbatim>\<open>register\<close> before \<^verbatim>\<open>users_db\<close> is written.
\<close>

definition register :: "env \<Rightarrow> state \<Rightarrow> User \<Rightarrow> (exception + UserResponse) \<times> state" where
  "register e s user =
     (if dict_in (u_username user) (users_db s)
      then (Inl (HTTPException HTTP_400_BAD_REQUEST ''Username already registered''), s)
      else
        case hash_password e (u_password user) of
          Inl ex \<Rightarrow> (Inl ex, s)
        | Inr hashed \<Rightarrow>
            let s1 = s\<lparr>users_db := AList.update (u_username user)
                      \<lparr>username = u_username user, email = u_email user,
                       hashed_password = hashed\<rparr> (users_db s)\<rparr>
            in (Inr \<lparr>r_username = u_username user, r_email = u_email user\<rparr>, s1))"

definition login :: "env \<Rightarrow> state \<Rightarrow> UserLogin \<Rightarrow> (exception + Token) \<times> state" where
  "login e s user_login =
     (case map_of (users_db s) (l_username user_login) of
        None \<Rightarrow> (Inl (HTTPException HTTP_401_UNAUTHORIZED ''Incorrect username or password''), s)
      | Some ud \<Rightarrow>
          (case verify_password e (l_password user_login) (hashed_password ud) of
             Inl ex \<Rightarrow> (Inl ex, s)
           | Inr ok \<Rightarrow>
               if \<not> ok
               then (Inl (HTTPException HTTP_401_UNAUTHORIZED ''Incorrect username or password''), s)
               else
                 let access_token_expires = timedelta_minutes ACCESS_TOKEN_EXPIRE_MINUTES;
                     tok = create_access_token e [(''sub'', JStr (l_username user_login))]
                             (Some access_token_expires)
                 in (Inr \<lparr>access_token = tok, token_type = ''bearer''\<rparr>, s)))"

subsection \<open>Blog post endpoints\<close>

text \<open>
  An endpoint declared with \<^verbatim>\<open>current_user: str = Depends(get_current_user)\<close> runs
  \<^const>\<open>get_current_user\<close> first; its exception is the endpoint's, and the body does not
  run.
\<close>

text \<open>
  The three endpoints that return a post compute the two counts in the same words,
  \<^verbatim>\<open>len(likes_db.get(post_id, set()))\<close> and \<^verbatim>\<open>len(comments_db.get(post_id, []))\<close>,
  and pass them to \<^verbatim>\<open>BlogPostResponse\<close> with the stored record.
\<close>

definition with_counts :: "state \<Rightarrow> int \<Rightarrow> post_data \<Rightarrow> BlogPostResponse" where
  "with_counts s post_id pd =
     post_data.extend pd
       (BlogPostResponse.fields
          (int (fcard (dict_get (likes_db s) post_id {||})))
          (int (length (dict_get (comments_db s) post_id []))))"

definition create_post ::
  "env \<Rightarrow> state \<Rightarrow> HTTPAuthorizationCredentials \<Rightarrow> BlogPost \<Rightarrow> (exception + BlogPostResponse) \<times> state" where
  "create_post e s creds post =
     (case get_current_user e s creds of
        Inl ex \<Rightarrow> (Inl ex, s)
      | Inr current_user \<Rightarrow>
          let s1 = s\<lparr>post_counter := post_counter s + 1\<rparr>;
              now = utcnow e;
              pd = \<lparr>p_id = post_counter s1, title = b_title post, content = b_content post,
                    author = current_user, created_at = now, updated_at = now\<rparr>;
              s2 = s1\<lparr>posts_db := AList.update (post_counter s1) pd (posts_db s1)\<rparr>;
              s3 = s2\<lparr>likes_db := AList.update (post_counter s2) {||} (likes_db s2)\<rparr>;
              s4 = s3\<lparr>comments_db := AList.update (post_counter s3) [] (comments_db s3)\<rparr>
          in (Inr (post_data.extend pd (BlogPostResponse.fields 0 0)), s4))"

text \<open>
  \<^verbatim>\<open>sorted(result, key=..., reverse=True)\<close>: the sort is stable, and with
  \<^verbatim>\<open>reverse=True\<close> it still keeps elements with equal keys in their original order;
  the list is reversed, sorted stably in ascending order, and reversed again.
\<close>

definition sorted_reverse :: "('a \<Rightarrow> 'k::linorder) \<Rightarrow> 'a list \<Rightarrow> 'a list" where
  "sorted_reverse key xs = rev (sort_key key (rev xs))"

definition get_all_posts :: "state \<Rightarrow> BlogPostResponse list" where
  "get_all_posts s =
     (let result = map (\<lambda>(post_id, pd). with_counts s post_id pd) (posts_db s)
      in sorted_reverse created_at result)"

definition get_post :: "state \<Rightarrow> int \<Rightarrow> (exception + BlogPostResponse) \<times> state" where
  "get_post s post_id =
     (case map_of (posts_db s) post_id of
        None \<Rightarrow> (Inl (HTTPException HTTP_404_NOT_FOUND ''Post not found''), s)
      | Some pd \<Rightarrow> (Inr (with_counts s post_id pd), s))"

text \<open>
  \<^verbatim>\<open>post_data = posts_db[post_id]\<close> is the stored dictionary itself, so the assignments
  to its entries change the store.
\<close>

definition update_post ::
  "env \<Rightarrow> state \<Rightarrow> HTTPAuthorizationCredentials \<Rightarrow> int \<Rightarrow> BlogPostUpdate \<Rightarrow>
     (exception + BlogPostResponse) \<times> state" where
  "update_post e s creds post_id post_update =
     (case get_current_user e s creds of
        Inl ex \<Rightarrow> (Inl ex, s)
      | Inr current_user \<Rightarrow>
          (case map_of (posts_db s) post_id of
             None \<Rightarrow> (Inl (HTTPException HTTP_404_NOT_FOUND ''Post not found''), s)
           | Some pd \<Rightarrow>
               if author pd \<noteq> current_user
               then (Inl (HTTPException HTTP_403_FORBIDDEN ''Not authorized to update this post''), s)
               else
                 let pd1 = (case up_title post_update of
                              None \<Rightarrow> pd | Some t \<Rightarrow> pd\<lparr>title := t\<rparr>);
                     pd2 = (case up_content post_update of
                              None \<Rightarrow> pd1 | Some c \<Rightarrow> pd1\<lparr>content := c\<rparr>);
                     pd3 = pd2\<lparr>updated_at := utcnow e\<rparr>;
                     s1 = s\<lparr>posts_db := AList.update post_id pd3 (posts_db s)\<rparr>
                 in (Inr (with_counts s1 post_id pd3), s1)))"

definition delete_post ::
  "env \<Rightarrow> state \<Rightarrow> HTTPAuthorizationCredentials \<Rightarrow> int \<Rightarrow> (exception + string) \<times> state" where
  "delete_post e s creds post_id =
     (case get_current_user e s creds of
        Inl ex \<Rightarrow> (Inl ex, s)
      | Inr current_user \<Rightarrow>
          (case map_of (posts_db s) post_id of
             None \<Rightarrow> (Inl (HTTPException HTTP_404_NOT_FOUND ''Post not found''), s)
           | Some pd \<Rightarrow>
               if author pd \<noteq> current_user
               then (Inl (HTTPException HTTP_403_FORBIDDEN ''Not authorized to delete this post''), s)
               else
                 let s1 = s\<lparr>posts_db := AList.delete post_id (posts_db s)\<rparr>;
                     s2 = (if dict_in post_id (likes_db s1)
                           then s1\<lparr>likes_db := AList.delete post_id (likes_db s1)\<rparr> else s1);
                     s3 = (if dict_in post_id (comments_db s2)
                           then s2\<lparr>comments_db := AList.delete post_id (comments_db s2)\<rparr> else s2)
                 in (Inr ''Post deleted successfully'', s3)))"

subsection \<open>Likes\<close>

definition like_post ::
  "env \<Rightarrow> state \<Rightarrow> HTTPAuthorizationCredentials \<Rightarrow> int \<Rightarrow> (exception + LikeResponse) \<times> state" where
  "like_post e s creds post_id =
     (case get_current_user e s creds of
        Inl ex \<Rightarrow> (Inl ex, s)
      | Inr current_user \<Rightarrow>
          if \<not> dict_in post_id (posts_db s)
          then (Inl (HTTPException HTTP_404_NOT_FOUND ''Post not found''), s)
          else
            let s1 = (if \<not> dict_in post_id (likes_db s)
                      then s\<lparr>likes_db := AList.update post_id {||} (likes_db s)\<rparr> else s)
            in case map_of (likes_db s1) post_id of
                 None \<Rightarrow> (Inl KeyError, s1)
               | Some likes \<Rightarrow>
                   if current_user |\<in>| likes
                   then (Inl (HTTPException HTTP_400_BAD_REQUEST ''You have already liked this post''), s1)
                   else
                     let likes1 = finsert current_user likes;
                         s2 = s1\<lparr>likes_db := AList.update post_id likes1 (likes_db s1)\<rparr>
                     in (Inr \<lparr>message = ''Post liked successfully'',
                              lr_likes_count = int (fcard likes1)\<rparr>, s2))"

definition unlike_post ::
  "env \<Rightarrow> state \<Rightarrow> HTTPAuthorizationCredentials \<Rightarrow> int \<Rightarrow> (exception + LikeResponse) \<times> state" where
  "unlike_post e s creds post_id =
     (case get_current_user e s creds of
        Inl ex \<Rightarrow> (Inl ex, s)
      | Inr current_user \<Rightarrow>
          if \<not> dict_in post_id (posts_db s)
          then (Inl (HTTPException HTTP_404_NOT_FOUND ''Post not found''), s)
          else
            (case map_of (likes_db s) post_id of
               None \<Rightarrow> (Inl (HTTPException HTTP_400_BAD_REQUEST ''You haven't liked this post''), s)
             | Some likes \<Rightarrow>
                 if current_user |\<notin>| likes
                 then (Inl (HTTPException HTTP_400_BAD_REQUEST ''You haven't liked this post''), s)
                 else
                   let likes1 = likes |-| {|current_user|};
                       s1 = s\<lparr>likes_db := AList.update post_id likes1 (likes_db s)\<rparr>
                   in (Inr \<lparr>message = ''Post unliked successfully'',
                            lr_likes_count = int (fcard likes1)\<rparr>, s1)))"

subsection \<open>Comments\<close>

definition add_comment ::
  "env \<Rightarrow> state \<Rightarrow> HTTPAuthorizationCredentials \<Rightarrow> int \<Rightarrow> Comment \<Rightarrow>
     (exception + CommentResponse) \<times> state" where
  "add_comment e s creds post_id comment =
     (case get_current_user e s creds of
        Inl ex \<Rightarrow> (Inl ex, s)
      | Inr current_user \<Rightarrow>
          if \<not> dict_in post_id (posts_db s)
          then (Inl (HTTPException HTTP_404_NOT_FOUND ''Post not found''), s)
          else
            let s1 = s\<lparr>comment_counter := comment_counter s + 1\<rparr>;
                cd = \<lparr>c_id = comment_counter s1, c_content = cm_content comment,
                      c_author = current_user, c_post_id = post_id,
                      c_created_at = utcnow e\<rparr>;
                s2 = (if \<not> dict_in post_id (comments_db s1)
                      then s1\<lparr>comments_db := AList.update post_id [] (comments_db s1)\<rparr> else s1)
            in case map_of (comments_db s2) post_id of
                 None \<Rightarrow> (Inl KeyError, s2)
               | Some cs \<Rightarrow>
                   (Inr cd, s2\<lparr>comments_db := AList.update post_id (append cs [cd]) (comments_db s2)\<rparr>))"

definition get_comments :: "state \<Rightarrow> int \<Rightarrow> (exception + CommentResponse list) \<times> state" where
  "get_comments s post_id =
     (if \<not> dict_in post_id (posts_db s)
      then (Inl (HTTPException HTTP_404_NOT_FOUND ''Post not found''), s)
      else (Inr (dict_get (comments_db s) post_id []), s))"

definition health_check :: "env \<Rightarrow> state \<Rightarrow> (string \<times> datetime) \<times> state" where
  "health_check e s = ((''healthy'', utcnow e), s)"

subsection \<open>Requests, runs and reachable states\<close>

datatype request =
    Register User
  | Login UserLogin
  | CreatePost HTTPAuthorizationCredentials BlogPost
  | GetAllPosts
  | GetPost int
  | UpdatePost HTTPAuthorizationCredentials int BlogPostUpdate
  | DeletePost HTTPAuthorizationCredentials int
  | LikePost HTTPAuthorizationCredentials int
  | UnlikePost HTTPAuthorizationCredentials int
  | AddComment HTTPAuthorizationCredentials int Comment
  | GetComments int
  | HealthCheck

datatype response =
    UserR UserResponse
  | TokenR Token
  | PostR BlogPostResponse
  | PostsR "BlogPostResponse list"
  | MessageR string
  | LikeR LikeResponse
  | CommentR CommentResponse
  | CommentsR "CommentResponse list"
  | HealthR string datetime

text \<open>The routing table: each request goes to its endpoint.\<close>

definition handle :: "env \<Rightarrow> state \<Rightarrow> request \<Rightarrow> (exception + response) \<times> state" where
  "handle e s req =
     (case req of
        Register user \<Rightarrow> apfst (map_sum id UserR) (register e s user)
      | Login user_login \<Rightarrow> apfst (map_sum id TokenR) (login e s user_login)
      | CreatePost creds post \<Rightarrow> apfst (map_sum id PostR) (create_post e s creds post)
      | GetAllPosts \<Rightarrow> (Inr (PostsR (get_all_posts s)), s)
      | GetPost post_id \<Rightarrow> apfst (map_sum id PostR) (get_post s post_id)
      | UpdatePost creds post_id post_update \<Rightarrow>
          apfst (map_sum id PostR) (update_post e s creds post_id post_update)
      | DeletePost creds post_id \<Rightarrow> apfst (map_sum id MessageR) (delete_post e s creds post_id)
      | LikePost creds post_id \<Rightarrow> apfst (map_sum id LikeR) (like_post e s creds post_id)
      | UnlikePost creds post_id \<Rightarrow> apfst (map_sum id LikeR) (unlike_post e s creds post_id)
      | AddComment creds post_id comment \<Rightarrow>
          apfst (map_sum id CommentR) (add_comment e s creds post_id comment)
      | GetComments post_id \<Rightarrow> apfst (map_sum id CommentsR) (get_comments s post_id)
      | HealthCheck \<Rightarrow> (case health_check e s of ((st, ts), s') \<Rightarrow> (Inr (HealthR st ts), s')))"

text \<open>
  A run serves a list of requests one after the other, each with the libraries and the
  clock of its moment, and returns the results in order with the last state.
\<close>

fun run :: "state \<Rightarrow> (env \<times> request) list \<Rightarrow> (exception + response) list \<times> state" where
  "run s [] = ([], s)"
| "run s ((e, req) # rest) =
     (case handle e s req of
        (out, s1) \<Rightarrow> (case run s1 rest of (outs, s2) \<Rightarrow> (out # outs, s2)))"

text \<open>The states of a process lifetime: the module's initial values, and every state a request leaves.\<close>

inductive reachable :: "state \<Rightarrow> bool" where
  reachable_init: "reachable init_state"
| reachable_step: "reachable s \<Longrightarrow> reachable (snd (handle e s req))"

text \<open>The ids given out along a run, in order: by the successful post creations, and by the successful comment creations.\<close>

fun assigned_post_ids :: "state \<Rightarrow> (env \<times> request) list \<Rightarrow> int list" where
  "assigned_post_ids s [] = []"
| "assigned_post_ids s ((e, req) # rest) =
     (case (req, fst (handle e s req)) of
        (CreatePost creds post, Inr (PostR resp)) \<Rightarrow> [p_id resp]
      | _ \<Rightarrow> []) @ assigned_post_ids (snd (handle e s req)) rest"

fun assigned_comment_ids :: "state \<Rightarrow> (env \<times> request) list \<Rightarrow> int list" where
  "assigned_comment_ids s [] = []"
| "assigned_comment_ids s ((e, req) # rest) =
     (case (req, fst (handle e s req)) of
        (AddComment creds post_id comment, Inr (CommentR resp)) \<Rightarrow> [c_id resp]
      | _ \<Rightarrow> []) @ assigned_comment_ids (snd (handle e s req)) rest"

text \<open>
  What holds of every reachable state: the post ids in \<^verbatim>\<open>posts_db\<close> are in increasing
  order, each post is stored under its own id, no id exceeds the counter, and the like
  store and the comment store have the keys of the post store.
\<close>

definition state_invariant :: "state \<Rightarrow> bool" where
  "state_invariant s =
     (sorted_wrt (<) (keys (posts_db s)) \<and>
      list_all (\<lambda>(k, pd). p_id pd = k \<and> k \<le> post_counter s) (posts_db s) \<and>
      set (keys (likes_db s)) = set (keys (posts_db s)) \<and>
      set (keys (comments_db s)) = set (keys (posts_db s)))"

text \<open>The like-set and the comment sequence of a post id, as the read endpoints look them up.\<close>

definition like_set :: "state \<Rightarrow> int \<Rightarrow> string fset" where
  "like_set s post_id = dict_get (likes_db s) post_id {||}"

definition comment_seq :: "state \<Rightarrow> int \<Rightarrow> comment_data list" where
  "comment_seq s post_id = dict_get (comments_db s) post_id []"

subsection \<open>A concrete scenario\<close>

text \<open>
  Toy libraries for concrete runs. As \<^verbatim>\<open>passlib\<close> does with its bcrypt scheme, they
  refuse a password of more than 4096 characters with \<^verbatim>\<open>PasswordSizeError\<close> and a
  password with a NUL character with \<^verbatim>\<open>PasswordValueError\<close>, when hashing and when
  verifying; the hash of any other password is its reversal. A token is the subject it
  was issued for. \<open>demo_env t\<close> is a request served at time \<open>t\<close>.
\<close>

definition secret_refused :: "string \<Rightarrow> exception option" where
  "secret_refused secret =
     (if 4096 < length secret then Some PasswordSizeError
      else if CHR 0x00 \<in> set secret then Some PasswordValueError
      else None)"

definition demo_env :: "datetime \<Rightarrow> env" where
  "demo_env t =
     \<lparr>pwd_hash = (\<lambda>secret. case secret_refused secret of
                   Some ex \<Rightarrow> Inl ex | None \<Rightarrow> Inr (rev secret)),
      pwd_verify = (\<lambda>secret hashed. case secret_refused secret of
                   Some ex \<Rightarrow> Inl ex | None \<Rightarrow> Inr (rev secret = hashed)),
      jwt_encode = (\<lambda>pl key alg. case dict_get pl ''sub'' JNull of JStr u \<Rightarrow> u | _ \<Rightarrow> []),
      jwt_decode = (\<lambda>tok key algs. Some [(''sub'', JStr tok)]),
      utcnow = t\<rparr>"


text \<open>A password with a NUL character.\<close>

definition nul_password :: string where
  "nul_password = [CHR ''p'', CHR 0x00]"

definition alice :: User where
  "alice = \<lparr>u_username = ''alice'', u_email = ''a@x.com'', u_password = ''pw1''\<rparr>"

definition bob :: User where
  "bob = \<lparr>u_username = ''bob'', u_email = ''b@x.com'', u_password = ''pw2''\<rparr>"

definition bearer :: "string \<Rightarrow> HTTPAuthorizationCredentials" where
  "bearer tok = \<lparr>credentials = tok\<rparr>"

definition hello :: BlogPost where
  "hello = \<lparr>b_title = ''hello'', b_content = ''world'', b_author = None\<rparr>"

text \<open>Alice and Bob register; Alice creates a post at time 100.\<close>

definition demo_requests :: "(env \<times> request) list" where
  "demo_requests =
     [(demo_env 10, Register alice), (demo_env 20, Register bob),
      (demo_env 100, CreatePost (bearer ''alice'') hello)]"

definition demo_state :: state where
  "demo_state = snd (run init_state demo_requests)"

text \<open>Then Bob likes the post and comments on it.\<close>

definition liked_state :: state where
  "liked_state =
     snd (run demo_state
       [(demo_env 110, LikePost (bearer ''bob'') 1),
        (demo_env 120, AddComment (bearer ''bob'') 1 \<lparr>cm_content = ''nice!''\<rparr>)])"

text \<open>Or else Alice creates a second post, within the same tick of the clock.\<close>

definition tie_state :: state where
  "tie_state = snd (run demo_state [(demo_env 100, CreatePost (bearer ''alice'') hello)])"

subsection \<open>Auxiliary notions\<close>

text \<open>A post id that was given out and is no longer in the post store.\<close>

definition post_gone :: "int \<Rightarrow> state \<Rightarrow> bool" where
  "post_gone p s = (\<not> dict_in p (posts_db s) \<and> p \<le> post_counter s)"

text \<open>After the like and the comment: Alice deletes her post and creates another, and Bob comments on it.\<close>

definition churn_requests :: "(env \<times> request) list" where
  "churn_requests =
     [(demo_env 130, DeletePost (bearer ''alice'') 1),
      (demo_env 140, CreatePost (bearer ''alice'') hello),
      (demo_env 150, AddComment (bearer ''bob'') 2 \<lparr>cm_content = ''again''\<rparr>)]"

text \<open>Two states whose three post-indexed stores have the same keys, in the same order.\<close>

definition same_keys :: "state \<Rightarrow> state \<Rightarrow> bool" where
  "same_keys s s' =
     (keys (posts_db s') = keys (posts_db s) \<and> keys (likes_db s') = keys (likes_db s) \<and>
      keys (comments_db s') = keys (comments_db s))"

section \<open>Dictionaries and the sort\<close>

lemma dict_in_keys: "dict_in k d \<longleftrightarrow> k \<in> set (keys d)"
  by (simp add: dict_in_def keys_def map_of_eq_None_iff)

lemma update_fresh: "k \<notin> fst ` set al \<Longrightarrow> AList.update k v al = al @ [(k, v)]"
  by (induction al) auto

lemma keys_update: "keys (AList.update k v al) = (if k \<in> set (keys al) then keys al else keys al @ [k])"
  by (simp add: keys_def update_keys)

lemma keys_delete: "keys (AList.delete k al) = removeAll k (keys al)"
  by (simp add: keys_def delete_keys)

lemma set_sorted_reverse: "set (sorted_reverse f xs) = set xs"
  by (simp add: sorted_reverse_def)

lemma length_sorted_reverse: "length (sorted_reverse f xs) = length xs"
  by (simp add: sorted_reverse_def)

lemma insort_key_tie:
  assumes "sorted_wrt (\<lambda>a b. f a < f b \<or> (f a = f b \<and> R a b)) zs"
    and "\<forall>z \<in> set zs. R x z"
  shows "sorted_wrt (\<lambda>a b. f a < f b \<or> (f a = f b \<and> R a b)) (insort_key f x zs)"
  using assms
proof (induction zs)
  case Nil
  then show ?case by simp
next
  case (Cons y zs)
  show ?case
  proof (cases "f x \<le> f y")
    case True
    have "\<forall>z \<in> set zs. f y \<le> f z" using Cons.prems(1) by auto
    with True Cons.prems show ?thesis by (auto simp: set_insort_key)
  next
    case False
    with Cons show ?thesis by (auto simp: set_insort_key)
  qed
qed

lemma sort_key_tie:
  assumes "sorted_wrt R ys"
  shows "sorted_wrt (\<lambda>a b. f a < f b \<or> (f a = f b \<and> R a b)) (sort_key f ys)"
  using assms
proof (induction ys)
  case Nil
  then show ?case by simp
next
  case (Cons y ys)
  then show ?case by (simp add: insort_key_tie)
qed

lemma sorted_reverse_tie:
  assumes "sorted_wrt R xs"
  shows "sorted_wrt (\<lambda>a b. f b < f a \<or> (f a = f b \<and> R a b)) (sorted_reverse f xs)"
proof -
  have "sorted_wrt (\<lambda>a b. R b a) (rev xs)" using assms by (simp add: sorted_wrt_rev)
  then have "sorted_wrt (\<lambda>a b. f a < f b \<or> (f a = f b \<and> R b a)) (sort_key f (rev xs))"
    by (rule sort_key_tie)
  then show ?thesis
    unfolding sorted_reverse_def sorted_wrt_rev by (rule sorted_wrt_mono_rel[rotated]) auto
qed

section \<open>The invariant of the reachable states\<close>

lemma inv_init: "state_invariant init_state"
  by (simp add: state_invariant_def init_state_def keys_def)

lemma inv_fresh:
  assumes "list_all (\<lambda>(k, pd). p_id pd = k \<and> k \<le> n) ps"
  shows "n + 1 \<notin> set (keys ps)"
  using assms by (auto simp: keys_def list_all_iff)

lemma list_all_update:
  "list_all P al \<Longrightarrow> P (k, v) \<Longrightarrow> list_all P (AList.update k v al)"
  by (induction al) auto

lemma list_all_delete:
  "list_all P al \<Longrightarrow> list_all P (AList.delete k al)"
  by (simp add: AList.delete_eq list_all_iff)

lemma sorted_keys_delete:
  "sorted_wrt (<) (keys al) \<Longrightarrow> sorted_wrt (<) (keys (AList.delete k al))"
  by (simp add: keys_delete removeAll_filter_not_eq sorted_wrt_filter)

lemma map_of_keys: "map_of d k = Some v \<Longrightarrow> k \<in> set (keys d)"
  by (auto simp: keys_def dest: map_of_SomeD intro: rev_image_eqI)

lemma inv_register: "state_invariant s \<Longrightarrow> state_invariant (snd (register e s user))"
  by (simp add: register_def state_invariant_def Let_def split: sum.splits)

lemma register_frame:
  "posts_db (snd (register e s user)) = posts_db s"
  "likes_db (snd (register e s user)) = likes_db s"
  "comments_db (snd (register e s user)) = comments_db s"
  "post_counter (snd (register e s user)) = post_counter s"
  "comment_counter (snd (register e s user)) = comment_counter s"
  by (simp_all add: register_def Let_def split: sum.splits)

lemma inv_login: "snd (login e s ul) = s"
  by (simp add: login_def Let_def split: option.splits sum.splits)

lemma inv_create:
  assumes "state_invariant s"
  shows "state_invariant (snd (create_post e s creds post))"
proof (cases "get_current_user e s creds")
  case (Inl ex)
  then show ?thesis using assms by (simp add: create_post_def)
next
  case (Inr u)
  let ?n = "post_counter s + 1"
  from assms have all: "list_all (\<lambda>(k, pd). p_id pd = k \<and> k \<le> post_counter s) (posts_db s)"
    and srt: "sorted_wrt (<) (keys (posts_db s))"
    and lk: "set (keys (likes_db s)) = set (keys (posts_db s))"
    and ck: "set (keys (comments_db s)) = set (keys (posts_db s))"
    by (simp_all add: state_invariant_def)
  have fresh: "?n \<notin> set (keys (posts_db s))" using all by (rule inv_fresh)
  have below: "\<forall>k \<in> set (keys (posts_db s)). k < ?n"
    using all by (auto simp: keys_def list_all_iff)
  have all': "list_all (\<lambda>(k, pd). p_id pd = k \<and> k \<le> ?n) (posts_db s)"
    using all by (auto simp: list_all_iff)
  show ?thesis
    using Inr fresh below all' srt lk ck
    by (auto simp: create_post_def state_invariant_def Let_def keys_update
        sorted_wrt_append list_all_update)
qed

lemma inv_update:
  assumes "state_invariant s"
  shows "state_invariant (snd (update_post e s creds post_id pu))"
proof -
  have key: "\<And>pd (pd'::post_data). map_of (posts_db s) post_id = Some pd \<Longrightarrow> p_id pd' = p_id pd \<Longrightarrow>
      state_invariant (s\<lparr>posts_db := AList.update post_id pd' (posts_db s)\<rparr>)"
  proof -
    fix pd and pd' :: post_data assume m: "map_of (posts_db s) post_id = Some pd" and eq: "p_id pd' = p_id pd"
    from m have "(post_id, pd) \<in> set (posts_db s)" by (rule map_of_SomeD)
    with assms have "p_id pd = post_id \<and> post_id \<le> post_counter s"
      by (auto simp: state_invariant_def list_all_iff)
    with assms m eq show "state_invariant (s\<lparr>posts_db := AList.update post_id pd' (posts_db s)\<rparr>)"
      by (auto simp: state_invariant_def keys_update map_of_keys list_all_update)
  qed
  show ?thesis
    using assms
    by (auto simp: update_post_def Let_def intro!: key split: sum.splits option.splits)
qed

lemma inv_delete:
  assumes "state_invariant s"
  shows "state_invariant (snd (delete_post e s creds post_id))"
  using assms
  by (auto simp: delete_post_def Let_def state_invariant_def dict_in_keys keys_delete
      sorted_keys_delete[unfolded keys_delete] list_all_delete
      split: sum.splits option.splits)

lemma inv_like:
  assumes "state_invariant s"
  shows "state_invariant (snd (like_post e s creds post_id))"
  using assms
  by (auto simp: like_post_def Let_def state_invariant_def dict_in_keys keys_update map_of_keys
      split: sum.splits option.splits)

lemma inv_unlike:
  assumes "state_invariant s"
  shows "state_invariant (snd (unlike_post e s creds post_id))"
  using assms
  by (auto simp: unlike_post_def Let_def state_invariant_def dict_in_keys keys_update map_of_keys
      split: sum.splits option.splits)

lemma inv_comment:
  assumes "state_invariant s"
  shows "state_invariant (snd (add_comment e s creds post_id c))"
  using assms
  by (auto simp: add_comment_def Let_def state_invariant_def dict_in_keys keys_update map_of_keys
      split: sum.splits option.splits)

lemma inv_handle: "state_invariant s \<Longrightarrow> state_invariant (snd (handle e s req))"
  by (cases req)
    (simp_all add: handle_def inv_register inv_login inv_create inv_update inv_delete inv_like
      inv_unlike inv_comment get_post_def get_comments_def health_check_def split: option.splits)

lemma reachable_invariant: "reachable s \<Longrightarrow> state_invariant s"
  by (induction rule: reachable.induct) (simp_all add: inv_init inv_handle)

section \<open>The concrete scenario, evaluated\<close>

lemmas endpoint_defs = register_def login_def create_post_def get_all_posts_def get_post_def
  update_post_def delete_post_def like_post_def unlike_post_def add_comment_def get_comments_def
  health_check_def get_current_user_def decode_access_token_def create_access_token_def
  hash_password_def verify_password_def with_counts_def dict_in_def dict_get_def

lemmas status_defs = HTTP_400_BAD_REQUEST_def HTTP_401_UNAUTHORIZED_def HTTP_403_FORBIDDEN_def
  HTTP_404_NOT_FOUND_def

lemma secret_accepted [simp]:
  "secret_refused ''pw1'' = None" "secret_refused ''pw2'' = None" "secret_refused [] = None"
  "secret_refused ''guess'' = None" "secret_refused nul_password = Some PasswordValueError"
  by (simp_all add: secret_refused_def nul_password_def)

lemmas demo_defs = demo_env_def alice_def bob_def bearer_def hello_def

lemma snd_run_Cons: "snd (run s ((e, req) # rest)) = snd (run (snd (handle e s req)) rest)"
  by (simp split: prod.splits)

lemma reachable_run: "reachable s \<Longrightarrow> reachable (snd (run s reqs))"
proof (induction reqs arbitrary: s)
  case Nil
  then show ?case by simp
next
  case (Cons a reqs)
  obtain e req where a: "a = (e, req)" by (cases a)
  have "reachable (snd (handle e s req))" using Cons.prems by (rule reachable_step)
  then have "reachable (snd (run (snd (handle e s req)) reqs))" by (rule Cons.IH)
  then show ?case by (simp only: a snd_run_Cons)
qed

lemma with_counts_sel [simp]:
  "p_id (with_counts s k pd) = p_id pd"
  "title (with_counts s k pd) = title pd"
  "content (with_counts s k pd) = content pd"
  "author (with_counts s k pd) = author pd"
  "created_at (with_counts s k pd) = created_at pd"
  "updated_at (with_counts s k pd) = updated_at pd"
  "likes_count (with_counts s k pd) = int (fcard (like_set s k))"
  "comments_count (with_counts s k pd) = int (length (comment_seq s k))"
  by (simp_all add: with_counts_def post_data.defs BlogPostResponse.defs like_set_def comment_seq_def)

lemma demo_state_eq:
  "demo_state =
    \<lparr>users_db =
       [(''alice'', \<lparr>username = ''alice'', email = ''a@x.com'', hashed_password = ''1wp''\<rparr>),
        (''bob'', \<lparr>username = ''bob'', email = ''b@x.com'', hashed_password = ''2wp''\<rparr>)],
     posts_db =
       [(1, \<lparr>p_id = 1, title = ''hello'', content = ''world'', author = ''alice'',
              created_at = 100, updated_at = 100\<rparr>)],
     likes_db = [(1, {||})], comments_db = [(1, [])],
     post_counter = 1, comment_counter = 0\<rparr>"
  by (simp add: demo_state_def demo_requests_def init_state_def handle_def endpoint_defs demo_defs
      SECRET_KEY_def ALGORITHM_def Let_def)

lemma reachable_demo_state: "reachable demo_state"
  unfolding demo_state_def by (rule reachable_run) (rule reachable_init)

lemma tie_state_eq:
  "tie_state =
    \<lparr>users_db =
       [(''alice'', \<lparr>username = ''alice'', email = ''a@x.com'', hashed_password = ''1wp''\<rparr>),
        (''bob'', \<lparr>username = ''bob'', email = ''b@x.com'', hashed_password = ''2wp''\<rparr>)],
     posts_db =
       [(1, \<lparr>p_id = 1, title = ''hello'', content = ''world'', author = ''alice'',
              created_at = 100, updated_at = 100\<rparr>),
        (2, \<lparr>p_id = 2, title = ''hello'', content = ''world'', author = ''alice'',
              created_at = 100, updated_at = 100\<rparr>)],
     likes_db = [(1, {||}), (2, {||})], comments_db = [(1, []), (2, [])],
     post_counter = 2, comment_counter = 0\<rparr>"
  by (simp add: tie_state_def demo_state_eq handle_def endpoint_defs demo_defs
      SECRET_KEY_def ALGORITHM_def Let_def)

lemma reachable_tie_state: "reachable tie_state"
  unfolding tie_state_def by (rule reachable_run) (rule reachable_demo_state)

lemma liked_state_eq:
  "liked_state =
    \<lparr>users_db =
       [(''alice'', \<lparr>username = ''alice'', email = ''a@x.com'', hashed_password = ''1wp''\<rparr>),
        (''bob'', \<lparr>username = ''bob'', email = ''b@x.com'', hashed_password = ''2wp''\<rparr>)],
     posts_db =
       [(1, \<lparr>p_id = 1, title = ''hello'', content = ''world'', author = ''alice'',
              created_at = 100, updated_at = 100\<rparr>)],
     likes_db = [(1, {|''bob''|})],
     comments_db = [(1, [\<lparr>c_id = 1, c_content = ''nice!'', c_author = ''bob'',
               c_post_id = 1, c_created_at = 120\<rparr>])],
     post_counter = 1, comment_counter = 1\<rparr>"
  by (simp add: liked_state_def demo_state_eq handle_def endpoint_defs demo_defs
      SECRET_KEY_def ALGORITHM_def Let_def)

lemma reachable_liked_state: "reachable liked_state"
  unfolding liked_state_def by (rule reachable_run) (rule reachable_demo_state)

section \<open>The order of the post list\<close>

lemma get_all_posts_by_id:
  assumes "reachable s"
  shows "sorted_wrt (\<lambda>a b. p_id a < p_id b) (map (\<lambda>(k, pd). with_counts s k pd) (posts_db s))"
proof -
  from assms have inv: "state_invariant s" by (rule reachable_invariant)
  then have srt: "sorted_wrt (<) (map fst (posts_db s))"
    and all: "\<forall>x \<in> set (posts_db s). p_id (snd x) = fst x"
    by (auto simp: state_invariant_def keys_def list_all_iff)
  from srt have "sorted_wrt (\<lambda>x y. fst x < fst y) (posts_db s)" by (simp add: sorted_wrt_map)
  then have "sorted_wrt (\<lambda>x y. p_id (snd x) < p_id (snd y)) (posts_db s)"
    by (rule sorted_wrt_mono_rel[rotated]) (use all in simp)
  then show ?thesis by (simp add: sorted_wrt_map case_prod_unfold)
qed

lemma sorted_keys_distinct: "sorted_wrt (<) (ks :: int list) \<Longrightarrow> distinct ks"
  by (induction ks) auto

lemma dict_get_Some: "k \<in> set (keys d) \<Longrightarrow> map_of d k = Some (dict_get d k dflt)"
  by (cases "map_of d k") (auto simp: dict_get_def keys_def map_of_eq_None_iff)

lemma truncate_with_counts: "post_data.truncate (with_counts s k pd) = pd"
  by (simp add: with_counts_def post_data.truncate_def post_data.extend_def)

lemma get_all_posts_elements:
  assumes "reachable s" and "resp \<in> set (get_all_posts s)"
  shows "map_of (posts_db s) (p_id resp) = Some (post_data.truncate resp)"
    and "map_of (likes_db s) (p_id resp) = Some (like_set s (p_id resp))"
    and "map_of (comments_db s) (p_id resp) = Some (comment_seq s (p_id resp))"
    and "likes_count resp = int (fcard (like_set s (p_id resp)))"
    and "comments_count resp = int (length (comment_seq s (p_id resp)))"
proof -
  from assms(1) have inv: "state_invariant s" by (rule reachable_invariant)
  from assms(2) obtain k pd where mem: "(k, pd) \<in> set (posts_db s)"
    and r: "resp = with_counts s k pd"
    by (auto simp: get_all_posts_def set_sorted_reverse)
  from inv mem have id: "p_id pd = k" by (auto simp: state_invariant_def list_all_iff)
  from inv have "distinct (map fst (posts_db s))"
    by (auto simp: state_invariant_def keys_def intro: sorted_keys_distinct)
  with mem have m: "map_of (posts_db s) k = Some pd" by (simp add: map_of_is_SomeI)
  from mem have kin: "k \<in> set (keys (posts_db s))" by (force simp: keys_def)
  with inv have kl: "k \<in> set (keys (likes_db s))" and kc: "k \<in> set (keys (comments_db s))"
    by (simp_all add: state_invariant_def)
  show "map_of (posts_db s) (p_id resp) = Some (post_data.truncate resp)"
    by (simp add: r id m truncate_with_counts)
  show "map_of (likes_db s) (p_id resp) = Some (like_set s (p_id resp))"
    using kl by (simp add: r id like_set_def dict_get_Some)
  show "map_of (comments_db s) (p_id resp) = Some (comment_seq s (p_id resp))"
    using kc by (simp add: r id comment_seq_def dict_get_Some)
  show "likes_count resp = int (fcard (like_set s (p_id resp)))" by (simp add: r id)
  show "comments_count resp = int (length (comment_seq s (p_id resp)))" by (simp add: r id)
qed

lemma get_all_posts_ids:
  assumes "reachable s"
  shows "p_id ` set (get_all_posts s) = set (keys (posts_db s))"
proof -
  from assms have "state_invariant s" by (rule reachable_invariant)
  then have "\<forall>x \<in> set (posts_db s). p_id (snd x) = fst x"
    by (auto simp: state_invariant_def list_all_iff)
  then have "p_id ` set (get_all_posts s) = fst ` set (posts_db s)"
    by (force simp: get_all_posts_def set_sorted_reverse image_iff)
  then show ?thesis by (simp add: keys_def)
qed

lemma get_all_posts_length: "length (get_all_posts s) = length (posts_db s)"
  by (simp add: get_all_posts_def length_sorted_reverse)

lemma get_all_posts_sorted:
  assumes "reachable s"
  shows "sorted_wrt (\<lambda>a b. created_at b < created_at a \<or>
            (created_at a = created_at b \<and> p_id a < p_id b)) (get_all_posts s)"
  unfolding get_all_posts_def Let_def
  by (rule sorted_reverse_tie) (rule get_all_posts_by_id[OF assms])

lemma get_all_posts_distinct:
  assumes "reachable s"
  shows "distinct (map p_id (get_all_posts s))"
proof -
  have "length (remdups (map p_id (get_all_posts s))) = card (p_id ` set (get_all_posts s))"
    by (simp add: length_remdups_card_conv)
  also have "\<dots> = card (set (keys (posts_db s)))" by (simp add: get_all_posts_ids[OF assms])
  also have "\<dots> = length (keys (posts_db s))"
    using reachable_invariant[OF assms]
    by (simp add: state_invariant_def distinct_card sorted_keys_distinct)
  also have "\<dots> = length (map p_id (get_all_posts s))"
    by (simp add: keys_def get_all_posts_length)
  finally show ?thesis by (simp add: card_distinct length_remdups_card_conv)
qed

text \<open>
  Claim C1, as the code has it. In every reachable state, \<^verbatim>\<open>get_all_posts\<close> returns
  the posts of the store, each of them once and as stored: as many elements as there are
  posts, with distinct ids, the ids being those of the store and each element the post
  stored under its id. They come by \<open>created_at\<close> descending, and two posts with the same
  \<open>created_at\<close> appear in insertion order, that is by ascending id: the stable sort with
  \<^verbatim>\<open>reverse=True\<close> keeps equal keys in the order of the dictionary.
\<close>

theorem get_all_posts_order:
  assumes "reachable s"
  shows "sorted_wrt (\<lambda>a b. created_at b < created_at a \<or>
            (created_at a = created_at b \<and> p_id a < p_id b)) (get_all_posts s) \<and>
         length (get_all_posts s) = length (posts_db s) \<and>
         distinct (map p_id (get_all_posts s)) \<and>
         p_id ` set (get_all_posts s) = set (keys (posts_db s)) \<and>
         (\<forall>resp \<in> set (get_all_posts s).
            map_of (posts_db s) (p_id resp) = Some (post_data.truncate resp))"
  using get_all_posts_sorted[OF assms] get_all_posts_length[of s] get_all_posts_distinct[OF assms]
    get_all_posts_ids[OF assms] get_all_posts_elements(1)[OF assms]
  by (intro conjI ballI)

theorem get_all_posts_order_witness:
  "reachable tie_state \<and>
   sorted_wrt (\<lambda>a b. created_at b < created_at a \<or>
            (created_at a = created_at b \<and> p_id a < p_id b)) (get_all_posts tie_state) \<and>
   length (get_all_posts tie_state) = 2 \<and>
   p_id ` set (get_all_posts tie_state) = {1, 2}"
proof -
  note t = get_all_posts_order[OF reachable_tie_state]
  have k: "set (keys (posts_db tie_state)) = {1, 2}" "length (posts_db tie_state) = 2"
    by (auto simp: keys_def tie_state_eq)
  from t[THEN conjunct1] t[THEN conjunct2, THEN conjunct1]
    t[THEN conjunct2, THEN conjunct2, THEN conjunct2, THEN conjunct1] reachable_tie_state
  show ?thesis by (simp add: k)
qed

text \<open>
  Claim C1 as stated asks for descending ids among posts with the same \<open>created_at\<close>.
  Two posts created within one tick of the clock are listed with the older one first.
\<close>

theorem get_all_posts_tie_counterexample:
  "reachable tie_state \<and> map p_id (get_all_posts tie_state) = [1, 2] \<and>
   map created_at (get_all_posts tie_state) = [100, 100]"
proof -
  have "map p_id (get_all_posts tie_state) = [1, 2]"
    and "map created_at (get_all_posts tie_state) = [100, 100]"
    by (simp_all add: get_all_posts_def sorted_reverse_def tie_state_eq)
  with reachable_tie_state show ?thesis by (intro conjI)
qed

section \<open>Registration and login\<close>

lemma login_unchanged: "snd (login e s ul) = s"
  by (rule inv_login)

lemma login_error:
  assumes "fst (login e s ul) = Inl x"
  shows "x = HTTPException 401 ''Incorrect username or password'' \<or>
         (\<exists>ud. map_of (users_db s) (l_username ul) = Some ud \<and>
               pwd_verify e (l_password ul) (hashed_password ud) = Inl x)"
  using assms
  by (auto simp: login_def Let_def HTTP_401_UNAUTHORIZED_def verify_password_def
      split: option.splits sum.splits if_splits)

lemma login_http_failures_agree:
  assumes "fst (login e s ul) = Inl x" and "fst (login e' s' ul') = Inl x'"
    and "\<forall>ud. map_of (users_db s) (l_username ul) = Some ud \<longrightarrow>
           \<not> isl (pwd_verify e (l_password ul) (hashed_password ud))"
    and "\<forall>ud. map_of (users_db s') (l_username ul') = Some ud \<longrightarrow>
           \<not> isl (pwd_verify e' (l_password ul') (hashed_password ud))"
  shows "x = x' \<and> x = HTTPException 401 ''Incorrect username or password'' \<and>
         snd (login e s ul) = s"
  using login_error[OF assms(1)] login_error[OF assms(2)] assms(3,4)
  by (auto simp: login_unchanged)

text \<open>
  Claim C5 fails on the code. A password with a NUL character is refused by
  \<^verbatim>\<open>pwd_context.verify\<close> with an exception that \<^verbatim>\<open>login\<close> does not catch. The call
  is made only for a known username, so the same password gives the 401 for the unknown
  username \<open>carol\<close> and the uncaught exception (status 500) for the registered \<open>alice\<close>:
  the two failures tell whether the username exists.
\<close>

theorem login_nul_password_reveals_username:
  "map_of (users_db demo_state) ''carol'' = None \<and>
   login (demo_env 30) demo_state \<lparr>l_username = ''carol'', l_password = nul_password\<rparr>
     = (Inl (HTTPException 401 ''Incorrect username or password''), demo_state) \<and>
   map_of (users_db demo_state) ''alice'' =
     Some \<lparr>username = ''alice'', email = ''a@x.com'', hashed_password = ''1wp''\<rparr> \<and>
   login (demo_env 30) demo_state \<lparr>l_username = ''alice'', l_password = nul_password\<rparr>
     = (Inl PasswordValueError, demo_state)"
proof -
  have m: "map_of (users_db demo_state) ''carol'' = None"
    "map_of (users_db demo_state) ''alice'' =
       Some \<lparr>username = ''alice'', email = ''a@x.com'', hashed_password = ''1wp''\<rparr>"
    by (simp_all add: demo_state_eq)
  have a: "login (demo_env 30) demo_state \<lparr>l_username = ''carol'', l_password = nul_password\<rparr>
     = (Inl (HTTPException 401 ''Incorrect username or password''), demo_state)"
    by (simp add: login_def m HTTP_401_UNAUTHORIZED_def)
  have b: "login (demo_env 30) demo_state \<lparr>l_username = ''alice'', l_password = nul_password\<rparr>
     = (Inl PasswordValueError, demo_state)"
    by (simp add: login_def m verify_password_def demo_env_def)
  from m a b show ?thesis by (intro conjI)
qed








section \<open>Requests that fail\<close>

lemma get_current_user_error:
  assumes "get_current_user e s creds = Inl ex"
  shows "ex = HTTPException 401 ''Could not validate credentials'' \<or>
         ex = HTTPException 401 ''User not found'' \<or> ex = TypeError"
  using assms
  by (auto simp: get_current_user_def decode_access_token_def Let_def HTTP_401_UNAUTHORIZED_def
      split: option.splits jwt_value.splits sum.splits if_splits)


lemma get_current_user_registered:
  "get_current_user e s creds = Inr u \<Longrightarrow> dict_in u (users_db s)"
  by (auto simp: get_current_user_def decode_access_token_def Let_def
      split: option.splits jwt_value.splits sum.splits if_splits)


lemma missing_post_short_circuits:
  assumes "get_current_user e s creds = Inr u" and "\<not> dict_in p (posts_db s)"
  shows "update_post e s creds p pu = (Inl (HTTPException 404 ''Post not found''), s)"
    and "delete_post e s creds p = (Inl (HTTPException 404 ''Post not found''), s)"
    and "like_post e s creds p = (Inl (HTTPException 404 ''Post not found''), s)"
    and "unlike_post e s creds p = (Inl (HTTPException 404 ''Post not found''), s)"
    and "add_comment e s creds p c = (Inl (HTTPException 404 ''Post not found''), s)"
  using assms
  by (simp_all add: update_post_def delete_post_def like_post_def unlike_post_def
      add_comment_def dict_in_def HTTP_404_NOT_FOUND_def)



lemma demo_auth:
  "get_current_user (demo_env t) demo_state (bearer ''alice'') = Inr ''alice''"
  "get_current_user (demo_env t) demo_state (bearer ''bob'') = Inr ''bob''"
  "get_current_user (demo_env t) demo_state (bearer ''mallory'') =
     Inl (HTTPException 401 ''User not found'')"
  by (simp_all add: get_current_user_def decode_access_token_def demo_env_def bearer_def
      dict_get_def dict_in_def demo_state_eq HTTP_401_UNAUTHORIZED_def)




section \<open>Likes\<close>

lemma like_set_update:
  "like_set (s\<lparr>likes_db := AList.update p L (likes_db s)\<rparr>) q = (if q = p then L else like_set s q)"
  by (simp add: like_set_def dict_get_def update_conv')

lemma like_post_liked:
  assumes "get_current_user e s creds = Inr u" and "dict_in p (posts_db s)"
    and "u |\<in>| like_set s p"
  shows "like_post e s creds p =
           (Inl (HTTPException 400 ''You have already liked this post''), s)"
  using assms
  by (auto simp: like_post_def like_set_def dict_get_def dict_in_def Let_def
      HTTP_400_BAD_REQUEST_def update_conv' split: option.splits)

lemma like_post_fresh:
  assumes "get_current_user e s creds = Inr u" and "dict_in p (posts_db s)"
    and "u |\<notin>| like_set s p"
  shows "fst (like_post e s creds p) =
           Inr \<lparr>message = ''Post liked successfully'',
                lr_likes_count = int (fcard (like_set (snd (like_post e s creds p)) p))\<rparr>"
    and "like_set (snd (like_post e s creds p)) p = finsert u (like_set s p)"
    and "q \<noteq> p \<Longrightarrow> like_set (snd (like_post e s creds p)) q = like_set s q"
  using assms
  by (auto simp: like_post_def like_set_def dict_get_def dict_in_def Let_def
      update_conv' split: option.splits)

lemma unlike_post_not_liked:
  assumes "get_current_user e s creds = Inr u" and "dict_in p (posts_db s)"
    and "u |\<notin>| like_set s p"
  shows "unlike_post e s creds p =
           (Inl (HTTPException 400 ''You haven't liked this post''), s)"
  using assms
  by (auto simp: unlike_post_def like_set_def dict_get_def dict_in_def Let_def
      HTTP_400_BAD_REQUEST_def split: option.splits)

lemma unlike_post_liked:
  assumes "get_current_user e s creds = Inr u" and "dict_in p (posts_db s)"
    and "u |\<in>| like_set s p"
  shows "fst (unlike_post e s creds p) =
           Inr \<lparr>message = ''Post unliked successfully'',
                lr_likes_count = int (fcard (like_set (snd (unlike_post e s creds p)) p))\<rparr>"
    and "like_set (snd (unlike_post e s creds p)) p = like_set s p |-| {|u|}"
    and "q \<noteq> p \<Longrightarrow> like_set (snd (unlike_post e s creds p)) q = like_set s q"
  using assms
  by (auto simp: unlike_post_def like_set_def dict_get_def dict_in_def Let_def
      update_conv' split: option.splits)

text \<open>
  Claim C4. For an authenticated user \<open>u\<close>: on a missing post both endpoints raise 404;
  on an existing post that \<open>u\<close> likes, \<^const>\<open>like_post\<close> raises 400 and leaves the state
  as it was, and \<^const>\<open>unlike_post\<close> removes \<open>u\<close> and returns the new count, one less;
  on an existing post that \<open>u\<close> does not like, \<^const>\<open>unlike_post\<close> raises 400 and leaves
  the state as it was, and \<^const>\<open>like_post\<close> adds \<open>u\<close> and returns the new count, one more.
\<close>

theorem like_unlike_contract:
  assumes "get_current_user e s creds = Inr u"
  shows
   "(\<not> dict_in p (posts_db s) \<longrightarrow>
       like_post e s creds p = (Inl (HTTPException 404 ''Post not found''), s) \<and>
       unlike_post e s creds p = (Inl (HTTPException 404 ''Post not found''), s)) \<and>
    (dict_in p (posts_db s) \<and> u |\<in>| like_set s p \<longrightarrow>
       like_post e s creds p =
         (Inl (HTTPException 400 ''You have already liked this post''), s) \<and>
       fst (unlike_post e s creds p) =
         Inr \<lparr>message = ''Post unliked successfully'',
              lr_likes_count = int (fcard (like_set (snd (unlike_post e s creds p)) p))\<rparr> \<and>
       like_set (snd (unlike_post e s creds p)) p = like_set s p |-| {|u|} \<and>
       int (fcard (like_set (snd (unlike_post e s creds p)) p)) = int (fcard (like_set s p)) - 1) \<and>
    (dict_in p (posts_db s) \<and> u |\<notin>| like_set s p \<longrightarrow>
       unlike_post e s creds p =
         (Inl (HTTPException 400 ''You haven't liked this post''), s) \<and>
       fst (like_post e s creds p) =
         Inr \<lparr>message = ''Post liked successfully'',
              lr_likes_count = int (fcard (like_set (snd (like_post e s creds p)) p))\<rparr> \<and>
       like_set (snd (like_post e s creds p)) p = finsert u (like_set s p) \<and>
       int (fcard (like_set (snd (like_post e s creds p)) p)) = int (fcard (like_set s p)) + 1)"
proof (intro conjI impI)
  assume "\<not> dict_in p (posts_db s)"
  with assms show "like_post e s creds p = (Inl (HTTPException 404 ''Post not found''), s)"
    and "unlike_post e s creds p = (Inl (HTTPException 404 ''Post not found''), s)"
    by (rule missing_post_short_circuits)+
next
  assume a: "dict_in p (posts_db s) \<and> u |\<in>| like_set s p"
  then have ex: "dict_in p (posts_db s)" and mem: "u |\<in>| like_set s p" by simp_all
  show "like_post e s creds p = (Inl (HTTPException 400 ''You have already liked this post''), s)"
    using assms ex mem by (rule like_post_liked)
  show "fst (unlike_post e s creds p) =
         Inr \<lparr>message = ''Post unliked successfully'',
              lr_likes_count = int (fcard (like_set (snd (unlike_post e s creds p)) p))\<rparr>"
    using assms ex mem by (rule unlike_post_liked(1))
  show eq: "like_set (snd (unlike_post e s creds p)) p = like_set s p |-| {|u|}"
    using assms ex mem by (rule unlike_post_liked(2))
  have "fcard (like_set s p) = Suc (fcard (like_set s p |-| {|u|}))"
    using mem by (rule fcard_Suc_fminus1[symmetric])
  then show "int (fcard (like_set (snd (unlike_post e s creds p)) p)) = int (fcard (like_set s p)) - 1"
    by (simp add: eq)
next
  assume a: "dict_in p (posts_db s) \<and> u |\<notin>| like_set s p"
  then have ex: "dict_in p (posts_db s)" and mem: "u |\<notin>| like_set s p" by simp_all
  show "unlike_post e s creds p = (Inl (HTTPException 400 ''You haven't liked this post''), s)"
    using assms ex mem by (rule unlike_post_not_liked)
  show "fst (like_post e s creds p) =
         Inr \<lparr>message = ''Post liked successfully'',
              lr_likes_count = int (fcard (like_set (snd (like_post e s creds p)) p))\<rparr>"
    using assms ex mem by (rule like_post_fresh(1))
  show eq: "like_set (snd (like_post e s creds p)) p = finsert u (like_set s p)"
    using assms ex mem by (rule like_post_fresh(2))
  show "int (fcard (like_set (snd (like_post e s creds p)) p)) = int (fcard (like_set s p)) + 1"
    using mem by (simp add: eq fcard_finsert_disjoint)
qed

lemma liked_auth:
  "get_current_user (demo_env t) liked_state (bearer ''alice'') = Inr ''alice''"
  "get_current_user (demo_env t) liked_state (bearer ''bob'') = Inr ''bob''"
  by (simp_all add: get_current_user_def decode_access_token_def demo_env_def bearer_def
      dict_get_def dict_in_def liked_state_eq)

text \<open>Bob, who likes post 1, and Alice, who does not.\<close>

theorem like_unlike_contract_witness:
  "like_post (demo_env 130) liked_state (bearer ''bob'') 1 =
     (Inl (HTTPException 400 ''You have already liked this post''), liked_state) \<and>
   fst (unlike_post (demo_env 130) liked_state (bearer ''bob'') 1) =
     Inr \<lparr>message = ''Post unliked successfully'', lr_likes_count = 0\<rparr> \<and>
   unlike_post (demo_env 130) liked_state (bearer ''alice'') 1 =
     (Inl (HTTPException 400 ''You haven't liked this post''), liked_state) \<and>
   fst (like_post (demo_env 130) liked_state (bearer ''alice'') 1) =
     Inr \<lparr>message = ''Post liked successfully'', lr_likes_count = 2\<rparr> \<and>
   like_post (demo_env 130) liked_state (bearer ''alice'') 2 =
     (Inl (HTTPException 404 ''Post not found''), liked_state)"
proof -
  have ex: "dict_in 1 (posts_db liked_state)" "\<not> dict_in 2 (posts_db liked_state)"
    by (simp_all add: dict_in_def liked_state_eq)
  have ls: "like_set liked_state 1 = {|''bob''|}"
    by (simp add: like_set_def dict_get_def liked_state_eq)
  have c: "fcard {|''bob''|} = 1" "fcard {|''alice'', ''bob''|} = 2"
    by (simp_all add: fcard_finsert_if)
  note b = like_unlike_contract[OF liked_auth(2)[of 130], of 1]
  note a1 = like_unlike_contract[OF liked_auth(1)[of 130], of 1]
  note a2 = like_unlike_contract[OF liked_auth(1)[of 130], of 2]
  from b a1 a2 ex show ?thesis by (simp add: ls c)
qed


section \<open>Updates\<close>

lemma update_post_success:
  assumes "update_post e s creds p pu = (Inr resp, s')"
  obtains pd where "map_of (posts_db s) p = Some pd"
    and "s' = s\<lparr>posts_db := AList.update p
          (pd\<lparr>title := (case up_title pu of None \<Rightarrow> title pd | Some t \<Rightarrow> t),
              content := (case up_content pu of None \<Rightarrow> content pd | Some c \<Rightarrow> c),
              updated_at := utcnow e\<rparr>) (posts_db s)\<rparr>"
    and "resp = with_counts s' p (pd\<lparr>title := (case up_title pu of None \<Rightarrow> title pd | Some t \<Rightarrow> t),
              content := (case up_content pu of None \<Rightarrow> content pd | Some c \<Rightarrow> c),
              updated_at := utcnow e\<rparr>)"
    and "get_current_user e s creds = Inr (author pd)"
  using assms
  by (auto simp: update_post_def Let_def split: sum.splits option.splits if_splits)

text \<open>
  Claim C6. After a successful update the post has the title and the content of the
  patch where the patch has them and its previous ones where it has not; its id, author and
  \<open>created_at\<close> are unchanged and its \<open>updated_at\<close> is the time of the request, whatever
  the patch holds; every other post, the order of the posts, the other stores and the two
  counters are unchanged, and the response carries the post as stored.
\<close>

theorem update_post_frame:
  assumes "update_post e s creds p pu = (Inr resp, s')"
  shows "\<exists>pd pd'.
      map_of (posts_db s) p = Some pd \<and> map_of (posts_db s') p = Some pd' \<and>
      title pd' = (case up_title pu of None \<Rightarrow> title pd | Some t \<Rightarrow> t) \<and>
      content pd' = (case up_content pu of None \<Rightarrow> content pd | Some c \<Rightarrow> c) \<and>
      p_id pd' = p_id pd \<and> author pd' = author pd \<and> created_at pd' = created_at pd \<and>
      updated_at pd' = utcnow e \<and>
      (\<forall>q. q \<noteq> p \<longrightarrow> map_of (posts_db s') q = map_of (posts_db s) q) \<and>
      keys (posts_db s') = keys (posts_db s) \<and>
      users_db s' = users_db s \<and> likes_db s' = likes_db s \<and> comments_db s' = comments_db s \<and>
      post_counter s' = post_counter s \<and> comment_counter s' = comment_counter s \<and>
      post_data.truncate resp = pd'"
proof -
  from assms obtain pd where m: "map_of (posts_db s) p = Some pd"
    and s': "s' = s\<lparr>posts_db := AList.update p
          (pd\<lparr>title := (case up_title pu of None \<Rightarrow> title pd | Some t \<Rightarrow> t),
              content := (case up_content pu of None \<Rightarrow> content pd | Some c \<Rightarrow> c),
              updated_at := utcnow e\<rparr>) (posts_db s)\<rparr>"
    and r: "resp = with_counts s' p (pd\<lparr>title := (case up_title pu of None \<Rightarrow> title pd | Some t \<Rightarrow> t),
              content := (case up_content pu of None \<Rightarrow> content pd | Some c \<Rightarrow> c),
              updated_at := utcnow e\<rparr>)"
    by (rule update_post_success)
  let ?pd' = "pd\<lparr>title := (case up_title pu of None \<Rightarrow> title pd | Some t \<Rightarrow> t),
              content := (case up_content pu of None \<Rightarrow> content pd | Some c \<Rightarrow> c),
              updated_at := utcnow e\<rparr>"
  have k: "keys (posts_db s') = keys (posts_db s)"
    using m by (simp add: s' keys_update map_of_keys)
  have t: "post_data.truncate resp = ?pd'"
    by (simp add: r with_counts_def post_data.truncate_def post_data.extend_def)
  have "map_of (posts_db s') p = Some ?pd'" by (simp add: s' update_conv')
  moreover have "\<forall>q. q \<noteq> p \<longrightarrow> map_of (posts_db s') q = map_of (posts_db s) q"
    by (simp add: s' update_conv')
  ultimately show ?thesis using m k t by (intro exI[of _ pd] exI[of _ ?pd']) (simp add: s')
qed

text \<open>The empty patch, sent by the author at time 300.\<close>

theorem update_post_frame_witness:
  "\<exists>resp s' pd'.
     update_post (demo_env 300) demo_state (bearer ''alice'') 1
       \<lparr>up_title = None, up_content = None\<rparr> = (Inr resp, s') \<and>
     map_of (posts_db s') 1 = Some pd' \<and>
     title pd' = ''hello'' \<and> content pd' = ''world'' \<and> author pd' = ''alice'' \<and>
     created_at pd' = 100 \<and> updated_at pd' = 300 \<and> likes_db s' = likes_db demo_state"
proof -
  have "fst (update_post (demo_env 300) demo_state (bearer ''alice'') 1
            \<lparr>up_title = None, up_content = None\<rparr>) \<noteq> Inl x" for x
    apply (simp add: update_post_def demo_auth)
    apply (simp add: demo_state_eq Let_def)
    done
  then obtain resp s' where
    u: "update_post (demo_env 300) demo_state (bearer ''alice'') 1
            \<lparr>up_title = None, up_content = None\<rparr> = (Inr resp, s')"
    by (metis surjective_pairing sum.exhaust)
  have m: "map_of (posts_db demo_state) 1 = Some \<lparr>p_id = 1, title = ''hello'',
      content = ''world'', author = ''alice'', created_at = 100, updated_at = 100\<rparr>"
    by (simp add: demo_state_eq)
  from update_post_frame[OF u] m have
    "\<exists>pd'. map_of (posts_db s') 1 = Some pd' \<and>
     title pd' = ''hello'' \<and> content pd' = ''world'' \<and> author pd' = ''alice'' \<and>
     created_at pd' = 100 \<and> updated_at pd' = 300 \<and> likes_db s' = likes_db demo_state"
    by (auto simp: demo_env_def)
  with u show ?thesis by blast
qed


section \<open>The cascade of a deletion\<close>

lemma delete_post_success:
  assumes "get_current_user e s creds = Inr u" and "map_of (posts_db s) p = Some pd"
    and "author pd = u"
  shows "fst (delete_post e s creds p) = Inr ''Post deleted successfully''"
    and "posts_db (snd (delete_post e s creds p)) = AList.delete p (posts_db s)"
    and "likes_db (snd (delete_post e s creds p)) = AList.delete p (likes_db s)"
    and "comments_db (snd (delete_post e s creds p)) = AList.delete p (comments_db s)"
    and "users_db (snd (delete_post e s creds p)) = users_db s"
    and "post_counter (snd (delete_post e s creds p)) = post_counter s"
    and "comment_counter (snd (delete_post e s creds p)) = comment_counter s"
  using assms
  by (simp_all add: delete_post_def Let_def dict_in_keys keys_def)

lemma post_gone_handle:
  assumes "post_gone p s"
  shows "post_gone p (snd (handle e s req))"
proof (cases req)
  case (CreatePost creds post)
  then show ?thesis using assms
    by (auto simp: handle_def post_gone_def create_post_def Let_def dict_in_def update_conv'
        split: sum.splits)
next
  case (UpdatePost creds q pu)
  then show ?thesis using assms
    by (auto simp: handle_def post_gone_def update_post_def Let_def dict_in_def update_conv'
        split: sum.splits option.splits)
next
  case (DeletePost creds q)
  then show ?thesis using assms
    by (auto simp: handle_def post_gone_def delete_post_def Let_def dict_in_def delete_conv'
        split: sum.splits option.splits)
next
  case (LikePost creds q)
  then show ?thesis using assms
    by (auto simp: handle_def post_gone_def like_post_def Let_def
        split: sum.splits option.splits)
next
  case (UnlikePost creds q)
  then show ?thesis using assms
    by (auto simp: handle_def post_gone_def unlike_post_def Let_def
        split: sum.splits option.splits)
next
  case (AddComment creds q c)
  then show ?thesis using assms
    by (auto simp: handle_def post_gone_def add_comment_def Let_def
        split: sum.splits option.splits)
qed (use assms in \<open>simp_all add: handle_def post_gone_def register_frame inv_login get_post_def
      get_comments_def health_check_def Let_def split: option.splits\<close>)

lemma post_gone_run: "post_gone p s \<Longrightarrow> post_gone p (snd (run s reqs))"
proof (induction reqs arbitrary: s)
  case Nil
  then show ?case by simp
next
  case (Cons a reqs)
  obtain e req where a: "a = (e, req)" by (cases a)
  from Cons.prems have "post_gone p (snd (handle e s req))" by (rule post_gone_handle)
  then have "post_gone p (snd (run (snd (handle e s req)) reqs))" by (rule Cons.IH)
  then show ?case by (simp only: a snd_run_Cons)
qed

lemma post_gone_reads:
  assumes "reachable s" and "post_gone p s"
  shows "map_of (posts_db s) p = None"
    and "map_of (likes_db s) p = None"
    and "map_of (comments_db s) p = None"
    and "get_post s p = (Inl (HTTPException 404 ''Post not found''), s)"
    and "get_comments s p = (Inl (HTTPException 404 ''Post not found''), s)"
    and "p \<notin> p_id ` set (get_all_posts s)"
proof -
  from assms(1) have inv: "state_invariant s" by (rule reachable_invariant)
  from assms(2) have n: "map_of (posts_db s) p = None" by (simp add: post_gone_def dict_in_def)
  then have k: "p \<notin> set (keys (posts_db s))" by (simp add: keys_def map_of_eq_None_iff)
  show "map_of (posts_db s) p = None" by (rule n)
  from inv k show "map_of (likes_db s) p = None" "map_of (comments_db s) p = None"
    by (simp_all add: state_invariant_def keys_def map_of_eq_None_iff)
  show "get_post s p = (Inl (HTTPException 404 ''Post not found''), s)"
    by (simp add: get_post_def n HTTP_404_NOT_FOUND_def)
  show "get_comments s p = (Inl (HTTPException 404 ''Post not found''), s)"
    by (simp add: get_comments_def dict_in_def n HTTP_404_NOT_FOUND_def)
  from inv have "\<forall>x \<in> set (posts_db s). p_id (snd x) = fst x"
    by (auto simp: state_invariant_def list_all_iff)
  then have "p_id ` set (get_all_posts s) = fst ` set (posts_db s)"
    by (force simp: get_all_posts_def set_sorted_reverse image_iff)
  with k show "p \<notin> p_id ` set (get_all_posts s)"
    by (simp add: keys_def)
qed

text \<open>
  Claim C3. When the author of an existing post deletes it, in a reachable state, the
  deletion succeeds, and in the state it leaves and in every state that any further
  requests lead to, the post id is in none of the three stores, \<^const>\<open>get_post\<close> and
  \<^const>\<open>get_comments\<close> raise 404, \<^const>\<open>like_post\<close> and \<^const>\<open>unlike_post\<close> of an
  authenticated user raise 404, and no post of \<^const>\<open>get_all_posts\<close> has that id.
\<close>

theorem delete_post_cascade:
  assumes "reachable s" and "get_current_user e s creds = Inr u"
    and "map_of (posts_db s) p = Some pd" and "author pd = u"
  shows "fst (delete_post e s creds p) = Inr ''Post deleted successfully'' \<and>
    (\<forall>reqs. let s' = snd (run (snd (delete_post e s creds p)) reqs) in
       map_of (posts_db s') p = None \<and> map_of (likes_db s') p = None \<and>
       map_of (comments_db s') p = None \<and>
       get_post s' p = (Inl (HTTPException 404 ''Post not found''), s') \<and>
       get_comments s' p = (Inl (HTTPException 404 ''Post not found''), s') \<and>
       (\<forall>e' creds' u'. get_current_user e' s' creds' = Inr u' \<longrightarrow>
          like_post e' s' creds' p = (Inl (HTTPException 404 ''Post not found''), s') \<and>
          unlike_post e' s' creds' p = (Inl (HTTPException 404 ''Post not found''), s')) \<and>
       p \<notin> p_id ` set (get_all_posts s'))"
proof (intro conjI allI)
  show "fst (delete_post e s creds p) = Inr ''Post deleted successfully''"
    using assms(2-4) by (rule delete_post_success)
next
  fix reqs
  let ?d = "snd (delete_post e s creds p)"
  let ?s' = "snd (run ?d reqs)"
  have d: "?d = snd (handle e s (DeletePost creds p))" by (simp add: handle_def)
  have rd: "reachable ?d" unfolding d using assms(1) by (rule reachable_step)
  then have r: "reachable ?s'" by (rule reachable_run)
  from assms(1) have inv: "state_invariant s" by (rule reachable_invariant)
  from assms(3) have "(p, pd) \<in> set (posts_db s)" by (rule map_of_SomeD)
  with inv have le: "p \<le> post_counter s" by (auto simp: state_invariant_def list_all_iff)
  have "post_gone p ?d"
    using le by (simp add: post_gone_def dict_in_def delete_post_success[OF assms(2-4)] delete_conv')
  then have g: "post_gone p ?s'" by (rule post_gone_run)
  then have nin: "\<not> dict_in p (posts_db ?s')" by (simp add: post_gone_def)
  have lk: "\<forall>e' creds' u'. get_current_user e' ?s' creds' = Inr u' \<longrightarrow>
          like_post e' ?s' creds' p = (Inl (HTTPException 404 ''Post not found''), ?s') \<and>
          unlike_post e' ?s' creds' p = (Inl (HTTPException 404 ''Post not found''), ?s')"
    using nin by (auto intro: missing_post_short_circuits)
  show "let s' = ?s' in
       map_of (posts_db s') p = None \<and> map_of (likes_db s') p = None \<and>
       map_of (comments_db s') p = None \<and>
       get_post s' p = (Inl (HTTPException 404 ''Post not found''), s') \<and>
       get_comments s' p = (Inl (HTTPException 404 ''Post not found''), s') \<and>
       (\<forall>e' creds' u'. get_current_user e' s' creds' = Inr u' \<longrightarrow>
          like_post e' s' creds' p = (Inl (HTTPException 404 ''Post not found''), s') \<and>
          unlike_post e' s' creds' p = (Inl (HTTPException 404 ''Post not found''), s')) \<and>
       p \<notin> p_id ` set (get_all_posts s')"
    unfolding Let_def using post_gone_reads[OF r g] lk by (intro conjI)
qed

text \<open>Alice deletes the liked and commented post 1, and then creates another post.\<close>

theorem delete_post_cascade_witness:
  "fst (delete_post (demo_env 130) liked_state (bearer ''alice'') 1) =
     Inr ''Post deleted successfully'' \<and>
   (let s' = snd (run (snd (delete_post (demo_env 130) liked_state (bearer ''alice'') 1))
                   [(demo_env 140, CreatePost (bearer ''alice'') hello)])
    in map_of (posts_db s') 1 = None \<and> map_of (likes_db s') 1 = None \<and>
       map_of (comments_db s') 1 = None \<and>
       get_post s' 1 = (Inl (HTTPException 404 ''Post not found''), s') \<and>
       get_comments s' 1 = (Inl (HTTPException 404 ''Post not found''), s') \<and>
       1 \<notin> p_id ` set (get_all_posts s'))"
proof -
  have m: "map_of (posts_db liked_state) 1 = Some \<lparr>p_id = 1, title = ''hello'',
      content = ''world'', author = ''alice'', created_at = 100, updated_at = 100\<rparr>"
    by (simp add: liked_state_eq)
  have a: "author \<lparr>p_id = 1, title = ''hello'',
      content = ''world'', author = ''alice'', created_at = 100, updated_at = 100\<rparr> = ''alice''"
    by simp
  note c = delete_post_cascade[OF reachable_liked_state liked_auth(1)[of 130] m a]
  from c have c1: "fst (delete_post (demo_env 130) liked_state (bearer ''alice'') 1) =
     Inr ''Post deleted successfully''" by (rule conjunct1)
  from c have c2: "let s' = snd (run (snd (delete_post (demo_env 130) liked_state (bearer ''alice'') 1))
                   [(demo_env 140, CreatePost (bearer ''alice'') hello)])
    in map_of (posts_db s') 1 = None \<and> map_of (likes_db s') 1 = None \<and>
       map_of (comments_db s') 1 = None \<and>
       get_post s' 1 = (Inl (HTTPException 404 ''Post not found''), s') \<and>
       get_comments s' 1 = (Inl (HTTPException 404 ''Post not found''), s') \<and>
       (\<forall>e' creds' u'. get_current_user e' s' creds' = Inr u' \<longrightarrow>
          like_post e' s' creds' 1 = (Inl (HTTPException 404 ''Post not found''), s') \<and>
          unlike_post e' s' creds' 1 = (Inl (HTTPException 404 ''Post not found''), s')) \<and>
       1 \<notin> p_id ` set (get_all_posts s')"
    by (rule conjunct2[THEN spec])
  from c1 c2 show ?thesis unfolding Let_def by blast
qed


section \<open>Identifiers\<close>

lemma create_post_result:
  assumes "fst (create_post e s creds post) = Inr resp"
  shows "p_id resp = post_counter s + 1"
    and "post_counter (snd (create_post e s creds post)) = post_counter s + 1"
  using assms
  by (auto simp: create_post_def Let_def post_data.defs split: sum.splits)

lemma add_comment_result:
  assumes "fst (add_comment e s creds p c) = Inr resp"
  shows "c_id resp = comment_counter s + 1"
    and "comment_counter (snd (add_comment e s creds p c)) = comment_counter s + 1"
  using assms
  by (auto simp: add_comment_def Let_def split: sum.splits option.splits if_splits)

lemma post_counter_mono: "post_counter s \<le> post_counter (snd (handle e s req))"
  by (cases req)
    (auto simp: handle_def register_def login_def create_post_def get_post_def update_post_def
      delete_post_def like_post_def unlike_post_def add_comment_def get_comments_def
      health_check_def Let_def split: sum.splits option.splits)

lemma comment_counter_mono: "comment_counter s \<le> comment_counter (snd (handle e s req))"
  by (cases req)
    (auto simp: handle_def register_def login_def create_post_def get_post_def update_post_def
      delete_post_def like_post_def unlike_post_def add_comment_def get_comments_def
      health_check_def Let_def split: sum.splits option.splits)

lemma head_post_id:
  "(case (req, fst (handle e s req)) of
      (CreatePost creds post, Inr (PostR resp)) \<Rightarrow> [p_id resp] | _ \<Rightarrow> []) = [] \<or>
   (case (req, fst (handle e s req)) of
      (CreatePost creds post, Inr (PostR resp)) \<Rightarrow> [p_id resp] | _ \<Rightarrow> []) = [post_counter s + 1] \<and>
   post_counter (snd (handle e s req)) = post_counter s + 1"
proof (cases req)
  case (CreatePost creds post)
  show ?thesis
  proof (cases "fst (create_post e s creds post)")
    case (Inl ex)
    then show ?thesis by (simp add: CreatePost handle_def)
  next
    case (Inr resp)
    then show ?thesis using create_post_result[OF Inr] by (simp add: CreatePost handle_def)
  qed
qed simp_all

lemma head_comment_id:
  "(case (req, fst (handle e s req)) of
      (AddComment creds post_id comment, Inr (CommentR resp)) \<Rightarrow> [c_id resp] | _ \<Rightarrow> []) = [] \<or>
   (case (req, fst (handle e s req)) of
      (AddComment creds post_id comment, Inr (CommentR resp)) \<Rightarrow> [c_id resp] | _ \<Rightarrow> []) =
        [comment_counter s + 1] \<and>
   comment_counter (snd (handle e s req)) = comment_counter s + 1"
proof (cases req)
  case (AddComment creds p c)
  show ?thesis
  proof (cases "fst (add_comment e s creds p c)")
    case (Inl ex)
    then show ?thesis by (simp add: AddComment handle_def)
  next
    case (Inr resp)
    then show ?thesis using add_comment_result[OF Inr] by (simp add: AddComment handle_def)
  qed
qed simp_all

lemma assigned_post_ids_bounds:
  "sorted_wrt (<) (assigned_post_ids s reqs) \<and>
   (\<forall>i \<in> set (assigned_post_ids s reqs). post_counter s < i)"
proof (induction reqs arbitrary: s)
  case Nil
  then show ?case by simp
next
  case (Cons a reqs)
  obtain e req where a: "a = (e, req)" by (cases a)
  let ?s1 = "snd (handle e s req)"
  let ?h = "case (req, fst (handle e s req)) of
      (CreatePost creds post, Inr (PostR resp)) \<Rightarrow> [p_id resp] | _ \<Rightarrow> []"
  have eq: "assigned_post_ids s (a # reqs) = ?h @ assigned_post_ids ?s1 reqs"
    by (simp add: a)
  from Cons.IH[of ?s1] have srt: "sorted_wrt (<) (assigned_post_ids ?s1 reqs)"
    and gt: "\<forall>i \<in> set (assigned_post_ids ?s1 reqs). post_counter ?s1 < i" by simp_all
  have mono: "post_counter s \<le> post_counter ?s1" by (rule post_counter_mono)
  from head_post_id[of req e s] show ?case
  proof
    assume "?h = []"
    with srt gt mono show ?thesis unfolding eq by auto
  next
    assume "?h = [post_counter s + 1] \<and> post_counter ?s1 = post_counter s + 1"
    with srt gt show ?thesis unfolding eq by (auto simp: sorted_wrt_append)
  qed
qed

lemma assigned_comment_ids_bounds:
  "sorted_wrt (<) (assigned_comment_ids s reqs) \<and>
   (\<forall>i \<in> set (assigned_comment_ids s reqs). comment_counter s < i)"
proof (induction reqs arbitrary: s)
  case Nil
  then show ?case by simp
next
  case (Cons a reqs)
  obtain e req where a: "a = (e, req)" by (cases a)
  let ?s1 = "snd (handle e s req)"
  let ?h = "case (req, fst (handle e s req)) of
      (AddComment creds post_id comment, Inr (CommentR resp)) \<Rightarrow> [c_id resp] | _ \<Rightarrow> []"
  have eq: "assigned_comment_ids s (a # reqs) = ?h @ assigned_comment_ids ?s1 reqs"
    by (simp add: a)
  from Cons.IH[of ?s1] have srt: "sorted_wrt (<) (assigned_comment_ids ?s1 reqs)"
    and gt: "\<forall>i \<in> set (assigned_comment_ids ?s1 reqs). comment_counter ?s1 < i" by simp_all
  have mono: "comment_counter s \<le> comment_counter ?s1" by (rule comment_counter_mono)
  from head_comment_id[of req e s] show ?case
  proof
    assume "?h = []"
    with srt gt mono show ?thesis unfolding eq by auto
  next
    assume "?h = [comment_counter s + 1] \<and> comment_counter ?s1 = comment_counter s + 1"
    with srt gt show ?thesis unfolding eq by (auto simp: sorted_wrt_append)
  qed
qed

text \<open>
  Claim C7. Along every run, from the initial state or from any other, the ids given to
  the created posts are strictly increasing in the order of their creation, and so are the
  ids given to the created comments, whichever posts they are on; each is greater than
  the counter at the start of the run. So no id is given twice, whatever was deleted in
  between.
\<close>

theorem assigned_ids_increase:
  "sorted_wrt (<) (assigned_post_ids s reqs) \<and>
   sorted_wrt (<) (assigned_comment_ids s reqs) \<and>
   (\<forall>i \<in> set (assigned_post_ids s reqs). post_counter s < i) \<and>
   (\<forall>i \<in> set (assigned_comment_ids s reqs). comment_counter s < i)"
  using assigned_post_ids_bounds[of s reqs] assigned_comment_ids_bounds[of s reqs] by simp

lemma churn_post_ids: "assigned_post_ids liked_state churn_requests = [2]"
  by (simp add: churn_requests_def liked_state_eq handle_def endpoint_defs demo_defs Let_def
      post_data.defs AList.delete_eq)

lemma churn_comment_ids: "assigned_comment_ids liked_state churn_requests = [2]"
  by (simp add: churn_requests_def liked_state_eq handle_def endpoint_defs demo_defs Let_def
      post_data.defs AList.delete_eq)

text \<open>A post is created, deleted, and the next post gets the next id.\<close>

theorem assigned_ids_increase_witness:
  "assigned_post_ids liked_state churn_requests = [2] \<and>
   assigned_comment_ids liked_state churn_requests = [2] \<and>
   post_counter liked_state < 2 \<and> comment_counter liked_state < 2"
  using assigned_ids_increase[of liked_state churn_requests]
  by (simp add: churn_post_ids churn_comment_ids)


section \<open>The counts of a response\<close>

lemma get_post_success:
  assumes "get_post s p = (Inr resp, s')"
  shows "\<exists>pd. map_of (posts_db s) p = Some pd \<and> resp = with_counts s p pd \<and> s' = s"
proof (cases "map_of (posts_db s) p")
  case None
  with assms show ?thesis by (simp add: get_post_def)
next
  case (Some pd)
  with assms show ?thesis by (auto simp: get_post_def)
qed

text \<open>
  Claim C8. The response of \<^const>\<open>get_post\<close> carries the cardinality of the post's
  like-set and the length of its comment sequence, as stored at that moment. In a reachable
  state the same holds of every element of \<^const>\<open>get_all_posts\<close>, each of which is an
  existing post with its like-set and comment sequence in the stores, and every existing
  post is among them.
\<close>

theorem counts_match_stores:
  "(\<forall>resp s'. get_post s p = (Inr resp, s') \<longrightarrow>
      likes_count resp = int (fcard (like_set s p)) \<and>
      comments_count resp = int (length (comment_seq s p)) \<and>
      dict_in p (posts_db s) \<and> s' = s) \<and>
   (dict_in p (posts_db s) \<longrightarrow> (\<exists>resp. get_post s p = (Inr resp, s))) \<and>
   (reachable s \<longrightarrow>
      (\<forall>resp \<in> set (get_all_posts s).
         map_of (posts_db s) (p_id resp) = Some (post_data.truncate resp) \<and>
         map_of (likes_db s) (p_id resp) = Some (like_set s (p_id resp)) \<and>
         map_of (comments_db s) (p_id resp) = Some (comment_seq s (p_id resp)) \<and>
         likes_count resp = int (fcard (like_set s (p_id resp))) \<and>
         comments_count resp = int (length (comment_seq s (p_id resp)))) \<and>
      p_id ` set (get_all_posts s) = set (keys (posts_db s)))"
proof (intro conjI allI impI ballI)
  fix resp s' assume g: "get_post s p = (Inr resp, s')"
  from get_post_success[OF g] obtain pd where m: "map_of (posts_db s) p = Some pd"
    and r: "resp = with_counts s p pd" and s': "s' = s"
    by blast
  show "likes_count resp = int (fcard (like_set s p))" by (simp add: r)
  show "comments_count resp = int (length (comment_seq s p))" by (simp add: r)
  show "dict_in p (posts_db s)" by (simp add: dict_in_def m)
  show "s' = s" by (rule s')
next
  assume "dict_in p (posts_db s)"
  then show "\<exists>resp. get_post s p = (Inr resp, s)"
    by (auto simp: dict_in_def get_post_def)
next
  fix resp assume r: "reachable s" and mem: "resp \<in> set (get_all_posts s)"
  show "map_of (posts_db s) (p_id resp) = Some (post_data.truncate resp)"
    and "map_of (likes_db s) (p_id resp) = Some (like_set s (p_id resp))"
    and "map_of (comments_db s) (p_id resp) = Some (comment_seq s (p_id resp))"
    and "likes_count resp = int (fcard (like_set s (p_id resp)))"
    and "comments_count resp = int (length (comment_seq s (p_id resp)))"
    using r mem by (rule get_all_posts_elements)+
next
  assume "reachable s"
  then show "p_id ` set (get_all_posts s) = set (keys (posts_db s))" by (rule get_all_posts_ids)
qed

text \<open>The post with one like and one comment.\<close>

theorem counts_match_stores_witness:
  "reachable liked_state \<and> like_set liked_state 1 = {|''bob''|} \<and>
   length (comment_seq liked_state 1) = 1 \<and>
   (\<exists>resp. get_post liked_state 1 = (Inr resp, liked_state) \<and>
      likes_count resp = 1 \<and> comments_count resp = 1) \<and>
   map likes_count (get_all_posts liked_state) = [1] \<and>
   map comments_count (get_all_posts liked_state) = [1]"
proof -
  have ls: "like_set liked_state 1 = {|''bob''|}"
    by (simp add: like_set_def dict_get_def liked_state_eq)
  have cs: "length (comment_seq liked_state 1) = 1"
    by (simp add: comment_seq_def dict_get_def liked_state_eq)
  have c: "fcard {|''bob''|} = 1" by (simp add: fcard_finsert_if)
  have ex: "dict_in 1 (posts_db liked_state)" by (simp add: dict_in_def liked_state_eq)
  note t = counts_match_stores[of liked_state 1]
  from t ex obtain resp where g: "get_post liked_state 1 = (Inr resp, liked_state)" by blast
  with t have "likes_count resp = 1 \<and> comments_count resp = 1" by (simp add: ls cs c)
  with g have a: "\<exists>resp. get_post liked_state 1 = (Inr resp, liked_state) \<and>
      likes_count resp = 1 \<and> comments_count resp = 1" by blast
  have ids: "map p_id (get_all_posts liked_state) = [1]"
    by (simp add: get_all_posts_def sorted_reverse_def liked_state_eq)
  then obtain r where l: "get_all_posts liked_state = [r]" and rid: "p_id r = 1" by auto
  from t reachable_liked_state l rid have "likes_count r = 1 \<and> comments_count r = 1"
    by (simp add: ls cs c)
  with l have b: "map likes_count (get_all_posts liked_state) = [1]"
    "map comments_count (get_all_posts liked_state) = [1]" by simp_all
  from reachable_liked_state ls cs a b show ?thesis by (intro conjI)
qed


section \<open>The keys of the like store and the comment store\<close>

lemma same_keys_refl: "same_keys s s"
  by (simp add: same_keys_def)

lemma keys_update_present: "k \<in> set (keys d) \<Longrightarrow> keys (AList.update k v d) = keys d"
  by (simp add: keys_update)

lemma same_keys_update:
  assumes "state_invariant s"
  shows "same_keys s (snd (update_post e s creds p pu))"
  using assms
  by (auto simp: update_post_def Let_def same_keys_def keys_update_present map_of_keys
      split: sum.splits option.splits)

lemma same_keys_like:
  assumes "state_invariant s"
  shows "same_keys s (snd (like_post e s creds p))"
  using assms
  by (auto simp: like_post_def Let_def same_keys_def state_invariant_def dict_in_keys
      keys_update_present map_of_keys split: sum.splits option.splits)

lemma same_keys_unlike:
  assumes "state_invariant s"
  shows "same_keys s (snd (unlike_post e s creds p))"
  using assms
  by (auto simp: unlike_post_def Let_def same_keys_def keys_update_present map_of_keys
      split: sum.splits option.splits)

lemma same_keys_comment:
  assumes "state_invariant s"
  shows "same_keys s (snd (add_comment e s creds p c))"
  using assms
  by (auto simp: add_comment_def Let_def same_keys_def state_invariant_def dict_in_keys
      keys_update_present map_of_keys split: sum.splits option.splits)

lemma create_post_failure:
  "fst (create_post e s creds post) = Inl ex \<Longrightarrow> snd (create_post e s creds post) = s"
  by (auto simp: create_post_def Let_def split: sum.splits)

lemma delete_post_failure:
  "fst (delete_post e s creds p) = Inl ex \<Longrightarrow> snd (delete_post e s creds p) = s"
  by (auto simp: delete_post_def Let_def split: sum.splits option.splits if_splits)

lemma delete_post_success_inv:
  assumes "fst (delete_post e s creds p) = Inr r"
  shows "p \<in> set (keys (posts_db s))"
    and "posts_db (snd (delete_post e s creds p)) = AList.delete p (posts_db s)"
    and "likes_db (snd (delete_post e s creds p)) = AList.delete p (likes_db s)"
    and "comments_db (snd (delete_post e s creds p)) = AList.delete p (comments_db s)"
proof -
  from assms obtain pd where m: "map_of (posts_db s) p = Some pd"
    and u: "get_current_user e s creds = Inr (author pd)"
    by (auto simp: delete_post_def Let_def split: sum.splits option.splits if_splits)
  show "p \<in> set (keys (posts_db s))" using m by (rule map_of_keys)
  show "posts_db (snd (delete_post e s creds p)) = AList.delete p (posts_db s)"
    and "likes_db (snd (delete_post e s creds p)) = AList.delete p (likes_db s)"
    and "comments_db (snd (delete_post e s creds p)) = AList.delete p (comments_db s)"
    by (rule delete_post_success[OF u m refl])+
qed

lemma create_post_success_inv:
  assumes "state_invariant s" and "fst (create_post e s creds post) = Inr resp"
  shows "p_id resp \<notin> set (keys (posts_db s))"
    and "set (keys (posts_db (snd (create_post e s creds post)))) =
           insert (p_id resp) (set (keys (posts_db s)))"
    and "set (keys (likes_db (snd (create_post e s creds post)))) =
           insert (p_id resp) (set (keys (likes_db s)))"
    and "set (keys (comments_db (snd (create_post e s creds post)))) =
           insert (p_id resp) (set (keys (comments_db s)))"
    and "map_of (likes_db (snd (create_post e s creds post))) (p_id resp) = Some {||}"
    and "map_of (comments_db (snd (create_post e s creds post))) (p_id resp) = Some []"
proof -
  from assms(1) have "list_all (\<lambda>(k, pd). p_id pd = k \<and> k \<le> post_counter s) (posts_db s)"
    by (simp add: state_invariant_def)
  then have fresh: "post_counter s + 1 \<notin> set (keys (posts_db s))" by (rule inv_fresh)
  from assms(2) have id: "p_id resp = post_counter s + 1" by (rule create_post_result)
  from assms(2) obtain u where u: "get_current_user e s creds = Inr u"
    by (auto simp: create_post_def split: sum.splits)
  show "p_id resp \<notin> set (keys (posts_db s))" using fresh by (simp add: id)
  show "set (keys (posts_db (snd (create_post e s creds post)))) =
           insert (p_id resp) (set (keys (posts_db s)))"
    by (auto simp: create_post_def u Let_def id keys_update)
  show "set (keys (likes_db (snd (create_post e s creds post)))) =
           insert (p_id resp) (set (keys (likes_db s)))"
    by (auto simp: create_post_def u Let_def id keys_update)
  show "set (keys (comments_db (snd (create_post e s creds post)))) =
           insert (p_id resp) (set (keys (comments_db s)))"
    by (auto simp: create_post_def u Let_def id keys_update)
  show "map_of (likes_db (snd (create_post e s creds post))) (p_id resp) = Some {||}"
    by (simp add: create_post_def u Let_def id update_conv')
  show "map_of (comments_db (snd (create_post e s creds post))) (p_id resp) = Some []"
    by (simp add: create_post_def u Let_def id update_conv')
qed

lemma same_keys_handle:
  assumes "state_invariant s"
    and "(\<forall>creds post. req \<noteq> CreatePost creds post) \<and> (\<forall>creds p. req \<noteq> DeletePost creds p)
         \<or> isl (fst (handle e s req))"
  shows "same_keys s (snd (handle e s req))"
proof (cases req)
  case (CreatePost creds post)
  with assms(2) obtain ex where "fst (create_post e s creds post) = Inl ex"
    by (cases "fst (create_post e s creds post)") (auto simp: handle_def)
  then show ?thesis by (simp add: CreatePost handle_def create_post_failure same_keys_refl)
next
  case (DeletePost creds p)
  with assms(2) obtain ex where "fst (delete_post e s creds p) = Inl ex"
    by (cases "fst (delete_post e s creds p)") (auto simp: handle_def)
  then show ?thesis by (simp add: DeletePost handle_def delete_post_failure same_keys_refl)
next
  case (Register user)
  then show ?thesis by (simp add: handle_def register_frame same_keys_def)
next
  case (Login ul)
  then show ?thesis by (simp add: handle_def inv_login same_keys_refl)
next
  case GetAllPosts
  then show ?thesis by (simp add: handle_def same_keys_refl)
next
  case (GetPost p)
  then show ?thesis by (simp add: handle_def get_post_def same_keys_refl split: option.splits)
next
  case (UpdatePost creds p pu)
  then show ?thesis using assms(1) by (simp add: handle_def same_keys_update)
next
  case (LikePost creds p)
  then show ?thesis using assms(1) by (simp add: handle_def same_keys_like)
next
  case (UnlikePost creds p)
  then show ?thesis using assms(1) by (simp add: handle_def same_keys_unlike)
next
  case (AddComment creds p c)
  then show ?thesis using assms(1) by (simp add: handle_def same_keys_comment)
next
  case (GetComments p)
  then show ?thesis by (simp add: handle_def get_comments_def same_keys_refl)
next
  case HealthCheck
  then show ?thesis by (simp add: handle_def health_check_def same_keys_refl)
qed

text \<open>
  Claim C10. In every reachable state the like store and the comment store have exactly
  the post ids of the post store as keys. A successful creation adds the new id to both,
  with the empty set and the empty list; a successful deletion removes the id from both;
  every other request, and every failed one, leaves the keys of both as they were.
\<close>

theorem like_comment_keys:
  assumes "reachable s"
  shows
   "set (keys (likes_db s)) = set (keys (posts_db s)) \<and>
    set (keys (comments_db s)) = set (keys (posts_db s)) \<and>
    (\<forall>e creds post resp. fst (create_post e s creds post) = Inr resp \<longrightarrow>
       p_id resp \<notin> set (keys (posts_db s)) \<and>
       set (keys (posts_db (snd (create_post e s creds post)))) =
         insert (p_id resp) (set (keys (posts_db s))) \<and>
       set (keys (likes_db (snd (create_post e s creds post)))) =
         insert (p_id resp) (set (keys (likes_db s))) \<and>
       set (keys (comments_db (snd (create_post e s creds post)))) =
         insert (p_id resp) (set (keys (comments_db s))) \<and>
       map_of (likes_db (snd (create_post e s creds post))) (p_id resp) = Some {||} \<and>
       map_of (comments_db (snd (create_post e s creds post))) (p_id resp) = Some []) \<and>
    (\<forall>e creds p r. fst (delete_post e s creds p) = Inr r \<longrightarrow>
       p \<in> set (keys (posts_db s)) \<and>
       set (keys (posts_db (snd (delete_post e s creds p)))) = set (keys (posts_db s)) - {p} \<and>
       set (keys (likes_db (snd (delete_post e s creds p)))) = set (keys (likes_db s)) - {p} \<and>
       set (keys (comments_db (snd (delete_post e s creds p)))) =
         set (keys (comments_db s)) - {p}) \<and>
    (\<forall>e req.
       (\<forall>creds post. req \<noteq> CreatePost creds post) \<and> (\<forall>creds p. req \<noteq> DeletePost creds p)
         \<or> isl (fst (handle e s req)) \<longrightarrow>
       same_keys s (snd (handle e s req)))"
proof -
  from assms have inv: "state_invariant s" by (rule reachable_invariant)
  have a: "set (keys (likes_db s)) = set (keys (posts_db s))"
    and b: "set (keys (comments_db s)) = set (keys (posts_db s))"
    using inv by (simp_all add: state_invariant_def)
  have c: "\<forall>e creds post resp. fst (create_post e s creds post) = Inr resp \<longrightarrow>
       p_id resp \<notin> set (keys (posts_db s)) \<and>
       set (keys (posts_db (snd (create_post e s creds post)))) =
         insert (p_id resp) (set (keys (posts_db s))) \<and>
       set (keys (likes_db (snd (create_post e s creds post)))) =
         insert (p_id resp) (set (keys (likes_db s))) \<and>
       set (keys (comments_db (snd (create_post e s creds post)))) =
         insert (p_id resp) (set (keys (comments_db s))) \<and>
       map_of (likes_db (snd (create_post e s creds post))) (p_id resp) = Some {||} \<and>
       map_of (comments_db (snd (create_post e s creds post))) (p_id resp) = Some []"
    by (intro allI impI conjI; erule create_post_success_inv[OF inv])
  have d: "\<forall>e creds p r. fst (delete_post e s creds p) = Inr r \<longrightarrow>
       p \<in> set (keys (posts_db s)) \<and>
       set (keys (posts_db (snd (delete_post e s creds p)))) = set (keys (posts_db s)) - {p} \<and>
       set (keys (likes_db (snd (delete_post e s creds p)))) = set (keys (likes_db s)) - {p} \<and>
       set (keys (comments_db (snd (delete_post e s creds p)))) =
         set (keys (comments_db s)) - {p}"
    by (auto simp: delete_post_success_inv keys_delete)
  have e: "\<forall>e req.
       (\<forall>creds post. req \<noteq> CreatePost creds post) \<and> (\<forall>creds p. req \<noteq> DeletePost creds p)
         \<or> isl (fst (handle e s req)) \<longrightarrow>
       same_keys s (snd (handle e s req))"
    using same_keys_handle[OF inv] by blast
  from a b c d e show ?thesis by (intro conjI)
qed

text \<open>The scenario: one post, then a like and a comment, and a deletion.\<close>

theorem like_comment_keys_witness:
  "reachable liked_state \<and>
   set (keys (likes_db liked_state)) = {1} \<and> set (keys (comments_db liked_state)) = {1} \<and>
   same_keys liked_state (snd (handle (demo_env 130) liked_state (LikePost (bearer ''alice'') 1))) \<and>
   set (keys (likes_db (snd (delete_post (demo_env 130) liked_state (bearer ''alice'') 1)))) = {} \<and>
   set (keys (comments_db (snd (delete_post (demo_env 130) liked_state (bearer ''alice'') 1)))) = {} \<and>
   set (keys (likes_db (snd (create_post (demo_env 130) liked_state (bearer ''alice'') hello))))
     = {1, 2} \<and>
   set (keys (comments_db (snd (create_post (demo_env 130) liked_state (bearer ''alice'') hello))))
     = {1, 2}"
proof -
  note t = like_comment_keys[OF reachable_liked_state]
  note t1 = t[THEN conjunct1]
  note t2 = t[THEN conjunct2, THEN conjunct1]
  note tc = t[THEN conjunct2, THEN conjunct2, THEN conjunct1, rule_format]
  note td = t[THEN conjunct2, THEN conjunct2, THEN conjunct2, THEN conjunct1, rule_format]
  note te = t[THEN conjunct2, THEN conjunct2, THEN conjunct2, THEN conjunct2, rule_format]
  have pk: "set (keys (posts_db liked_state)) = {1}" by (simp add: keys_def liked_state_eq)
  have lk: "set (keys (likes_db liked_state)) = {1}" using t1 pk by simp
  have ck: "set (keys (comments_db liked_state)) = {1}" using t2 pk by simp
  have sk: "same_keys liked_state
      (snd (handle (demo_env 130) liked_state (LikePost (bearer ''alice'') 1)))"
    by (rule te) simp
  have m: "map_of (posts_db liked_state) 1 = Some \<lparr>p_id = 1, title = ''hello'',
      content = ''world'', author = ''alice'', created_at = 100, updated_at = 100\<rparr>"
    by (simp add: liked_state_eq)
  have d: "fst (delete_post (demo_env 130) liked_state (bearer ''alice'') 1) =
      Inr ''Post deleted successfully''"
    by (rule delete_post_success(1)[OF liked_auth(1) m]) simp
  have dl: "set (keys (likes_db (snd (delete_post (demo_env 130) liked_state (bearer ''alice'') 1)))) = {}"
    using td[OF d] lk by simp
  have dc: "set (keys (comments_db (snd (delete_post (demo_env 130) liked_state (bearer ''alice'') 1)))) = {}"
    using td[OF d] ck by simp
  have "\<not> isl (fst (create_post (demo_env 130) liked_state (bearer ''alice'') hello))"
    by (simp add: create_post_def liked_auth Let_def)
  then obtain resp where
    c: "fst (create_post (demo_env 130) liked_state (bearer ''alice'') hello) = Inr resp"
    by (cases "fst (create_post (demo_env 130) liked_state (bearer ''alice'') hello)") auto
  have "post_counter liked_state = 1" by (simp add: liked_state_eq)
  with create_post_result(1)[OF c] have id: "p_id resp = 2" by simp
  have cl: "set (keys (likes_db (snd (create_post (demo_env 130) liked_state (bearer ''alice'') hello))))
       = {1, 2}"
    using tc[OF c] by (auto simp: id lk)
  have cc: "set (keys (comments_db (snd (create_post (demo_env 130) liked_state (bearer ''alice'') hello))))
       = {1, 2}"
    using tc[OF c] by (auto simp: id ck)
  from reachable_liked_state lk ck sk dl dc cl cc show ?thesis by (intro conjI)
qed


end
